theory Spec2Isabelle
  imports Main "HOL-Library.Multiset"
begin

section \<open>Data model\<close>

text \<open>
  The three tables of \<^verbatim>\<open>init_db\<close> (lines 41 to 63), one record per row. The columns
  \<^verbatim>\<open>mid\<close> and \<^verbatim>\<open>bid\<close> of the sale table are named \<open>sale_mid\<close> and \<open>sale_bid\<close>
  here, since a field name can belong to one record only.
\<close>

record member_row =
  mid :: string
  mname :: string
  mphone :: string
  memail :: "string option"

record book_row =
  bid :: string
  btitle :: string
  bprice :: int
  bstock :: int

record sale_row =
  sid :: int
  sdate :: string
  sale_mid :: string
  sale_bid :: string
  sqty :: int
  sdiscount :: int
  stotal :: int

text \<open>
  The committed content of \<^verbatim>\<open>bookstore.db\<close>. A table that does not exist is \<open>None\<close>;
  a table that exists is the list of its rows in insertion order, with the schema of lines
  41 to 63. \<open>sale_seq\<close> is the entry of the sale table in \<^verbatim>\<open>sqlite_sequence\<close>, which
  AUTOINCREMENT maintains: the largest \<^verbatim>\<open>sid\<close> ever handed out. The integers of the program
  are Python integers, without bound, and so are the fields here; that an INTEGER column
  holds 64 bits shows where the program hands a value to SQLite (\<open>bind_ints\<close> below).
\<close>

record db =
  member_tbl :: "member_row list option"
  book_tbl :: "book_row list option"
  sale_tbl :: "sale_row list option"
  sale_seq :: int

text \<open>
  The exceptions that leave a function of the program. None of them is caught anywhere
  (only \<^verbatim>\<open>ValueError\<close> is, and it is modelled by \<open>None\<close> of \<open>py_int\<close>).
  \<^item> \<open>EOFError\<close>: \<^verbatim>\<open>input()\<close> with no line left;
  \<^item> \<open>OperationalError\<close>: a statement on a table that does not exist, or an INSERT into
    the sale table when the largest \<^verbatim>\<open>sid\<close> has been handed out
    (\<^verbatim>\<open>database or disk is full\<close>);
  \<^item> \<open>IntegrityError\<close>: an INSERT that repeats a primary key;
  \<^item> \<open>OverflowError\<close>: an integer parameter outside the 64 bits of an SQLite INTEGER;
  \<^item> \<open>ProgrammingError\<close>: the commit at the end of a \<^verbatim>\<open>with\<close> block whose
    connection the block has closed.
\<close>

datatype exn = EOFError | OperationalError | IntegrityError | OverflowError | ProgrammingError

text \<open>
  The lines the program prints, one constructor per \<^verbatim>\<open>print\<close> call of the source (the
  texts themselves are Chinese; the constructor carries the values the f-string shows).
\<close>

datatype out =
    OutCreatingTables                 \<comment> \<open>line 38\<close>
  | OutInitDone                       \<comment> \<open>line 99\<close>
  | OutTablesExist                    \<comment> \<open>line 101\<close>
  | ErrDateFormat                     \<comment> \<open>line 136\<close>
  | ErrMemberInvalid                  \<comment> \<open>line 144\<close>
  | ErrBookInvalid                    \<comment> \<open>line 150\<close>
  | ErrQtyNotPositive                 \<comment> \<open>line 159\<close>
  | ErrDiscountNegative               \<comment> \<open>line 167\<close>
  | ErrInsufficientStock int          \<comment> \<open>line 171, with the current stock\<close>
  | OutSaleAdded int                  \<comment> \<open>line 187, with the total\<close>
  | OutNoSalesReport                  \<comment> \<open>line 214\<close>
  | OutReportHeader                   \<comment> \<open>line 217\<close>
  | OutReportSale int string string string int int int int int
      \<comment> \<open>lines 219 to 228: sid, date, member, title, price, qty, discount, subtotal, total\<close>
  | OutNoSales                        \<comment> \<open>lines 252 and 342\<close>
  | OutListHeader                     \<comment> \<open>lines 255 and 345\<close>
  | OutListRow nat int string string  \<comment> \<open>lines 258 and 348: position, sid, member, date\<close>
  | OutListFooter                     \<comment> \<open>lines 259 and 349\<close>
  | OutCancelUpdate                   \<comment> \<open>line 265\<close>
  | ErrInvalidChoice                  \<comment> \<open>line 272\<close>
  | ErrChoiceNotNumber                \<comment> \<open>line 278\<close>
  | ErrNoBookData                     \<comment> \<open>line 289\<close>
  | OutCurrentDiscount int            \<comment> \<open>line 296\<close>
  | ErrUpdateDiscountNegative         \<comment> \<open>line 301\<close>
  | ErrUpdateDiscountNotNumber        \<comment> \<open>line 305\<close>
  | OutSaleUpdated int int            \<comment> \<open>line 318: sid and new total\<close>
  | OutCancelDelete                   \<comment> \<open>line 356\<close>
  | ErrDeleteInvalidNumber            \<comment> \<open>lines 363 and 377\<close>
  | OutSaleDeleted int                \<comment> \<open>line 373\<close>

text \<open>
  The console is a list of input lines, of which \<^verbatim>\<open>input()\<close> takes the first, and the list
  of the lines printed. What a function of the program leaves behind: how it ended
  (\<open>Inr ()\<close> for a normal return, \<open>Inl e\<close> for the exception \<open>e\<close>), the committed database,
  the lines printed and the input lines not yet read. The functions modelled are
  \<^verbatim>\<open>table_exists\<close>, \<^verbatim>\<open>init_db\<close>, \<^verbatim>\<open>sales_record\<close>, \<^verbatim>\<open>show_sales_report\<close>,
  \<^verbatim>\<open>update_sales_record\<close> and \<^verbatim>\<open>delete_sales_record\<close>; \<^verbatim>\<open>main\<close> and \<^verbatim>\<open>select_menu\<close>, which
  only show the menu and call them, are not.
\<close>

record run =
  outcome :: "exn + unit"
  store :: db
  printed :: "out list"
  unread :: "string list"

section \<open>Python and SQLite primitives\<close>

text \<open>
  \<^verbatim>\<open>int(s)\<close> on a line of text whose characters are code points below 256, one
  \<open>char\<close> each: blanks around are dropped (the six ASCII blanks, U+0085 and U+00A0), one
  sign is allowed, then decimal digits, where single underscores may stand between two
  digits; more than 4300 digits are refused (the default limit of CPython since 3.11).
  \<open>None\<close> is \<^verbatim>\<open>ValueError\<close>.
\<close>

definition is_space :: "char \<Rightarrow> bool" where
  "is_space c =
     (c \<in> set [CHR 0x09, CHR 0x0A, CHR 0x0B, CHR 0x0C, CHR 0x0D, CHR 0x20, CHR 0x85, CHR 0xA0])"

definition is_digit :: "char \<Rightarrow> bool" where
  "is_digit c = (c \<in> set ''0123456789'')"

definition digit_val :: "char \<Rightarrow> int" where
  "digit_val c = of_char c - 48"

definition strip :: "string \<Rightarrow> string" where
  "strip s = rev (dropWhile is_space (rev (dropWhile is_space s)))"

fun digits_val :: "int \<Rightarrow> string \<Rightarrow> int option" where
  "digits_val acc [] = Some acc"
| "digits_val acc (c # cs) =
     (if c = CHR ''_'' then
        (case cs of [] \<Rightarrow> None
         | d # _ \<Rightarrow> if is_digit d then digits_val acc cs else None)
      else if is_digit c then digits_val (10 * acc + digit_val c) cs
      else None)"

definition parse_nat :: "string \<Rightarrow> int option" where
  "parse_nat s =
     (case s of [] \<Rightarrow> None
      | c # _ \<Rightarrow>
          if is_digit c \<and> length (filter is_digit s) \<le> 4300 then digits_val 0 s
          else None)"

definition py_int :: "string \<Rightarrow> int option" where
  "py_int s =
     (case strip s of [] \<Rightarrow> None
      | c # cs \<Rightarrow>
          if c = CHR ''-'' then map_option uminus (parse_nat cs)
          else if c = CHR ''+'' then parse_nat cs
          else parse_nat (c # cs))"

text \<open>
  An SQLite INTEGER is a signed 64-bit value. The \<^verbatim>\<open>sqlite3\<close> module raises
  \<^verbatim>\<open>OverflowError\<close> when a Python integer bound to a \<^verbatim>\<open>?\<close> is outside that range, before
  the statement runs.
\<close>

definition sqlite_int :: "int \<Rightarrow> bool" where
  "sqlite_int x = (- (2 ^ 63) \<le> x \<and> x < 2 ^ 63)"

definition bind_ints :: "int list \<Rightarrow> exn + unit" where
  "bind_ints xs = (if list_all sqlite_int xs then Inr () else Inl OverflowError)"

text \<open>\<^verbatim>\<open>table_exists\<close>, lines 16 to 22: only the three tables of the program are modelled.\<close>

definition table_exists :: "db \<Rightarrow> string \<Rightarrow> bool" where
  "table_exists conn table_name =
     (if table_name = ''member'' then member_tbl conn \<noteq> None
      else if table_name = ''book'' then book_tbl conn \<noteq> None
      else if table_name = ''sale'' then sale_tbl conn \<noteq> None
      else False)"

text \<open>Line 142: \<^verbatim>\<open>SELECT 1 FROM member WHERE mid = ?\<close> and \<^verbatim>\<open>fetchone\<close>.\<close>

definition select_member :: "db \<Rightarrow> string \<Rightarrow> exn + member_row option" where
  "select_member d member_id =
     (case member_tbl d of None \<Rightarrow> Inl OperationalError
      | Some ms \<Rightarrow> Inr (find (\<lambda>m. mid m = member_id) ms))"

text \<open>Line 147: \<^verbatim>\<open>SELECT bstock, bprice FROM book WHERE bid = ?\<close> and \<^verbatim>\<open>fetchone\<close>.\<close>

definition select_book :: "db \<Rightarrow> string \<Rightarrow> exn + book_row option" where
  "select_book d book_id =
     (case book_tbl d of None \<Rightarrow> Inl OperationalError
      | Some bs \<Rightarrow> Inr (find (\<lambda>b. bid b = book_id) bs))"

text \<open>
  The \<^verbatim>\<open>sid\<close> that AUTOINCREMENT gives the next row: one more than the largest of the
  ids in the table and the recorded sequence value. A \<^verbatim>\<open>sid\<close> is a signed 64-bit value
  as well: when the largest one, \<open>2 ^ 63 - 1\<close>, has been handed out, there is no next one.
\<close>

definition next_sid :: "sale_row list \<Rightarrow> int \<Rightarrow> int" where
  "next_sid rows s = fold max (map sid rows) s + 1"

text \<open>
  Lines 88 and 175: \<^verbatim>\<open>INSERT INTO sale (sdate, mid, bid, sqty, sdiscount, stotal)\<close>.
  The statement is prepared (the table must exist), its parameters are bound (the
  integers must fit) and the row is appended under a fresh \<^verbatim>\<open>sid\<close>; when the ids are
  used up, the statement fails and nothing is written.
\<close>

definition insert_sale ::
    "db \<Rightarrow> string \<Rightarrow> string \<Rightarrow> string \<Rightarrow> int \<Rightarrow> int \<Rightarrow> int \<Rightarrow> exn + db" where
  "insert_sale d date m b qty discount tot =
     (case sale_tbl d of None \<Rightarrow> Inl OperationalError
      | Some rows \<Rightarrow>
          (case bind_ints [qty, discount, tot] of Inl e \<Rightarrow> Inl e
           | Inr _ \<Rightarrow>
               let new = next_sid rows (sale_seq d) in
               if \<not> sqlite_int new then Inl OperationalError
               else
                 Inr (d\<lparr>sale_tbl := Some (rows @
                         [\<lparr>sid = new, sdate = date, sale_mid = m, sale_bid = b,
                           sqty = qty, sdiscount = discount, stotal = tot\<rparr>]),
                        sale_seq := new\<rparr>)))"

text \<open>Line 184: \<^verbatim>\<open>UPDATE book SET bstock = bstock - ? WHERE bid = ?\<close>.\<close>

definition update_book_stock :: "db \<Rightarrow> int \<Rightarrow> string \<Rightarrow> exn + db" where
  "update_book_stock d qty book_id =
     (case book_tbl d of None \<Rightarrow> Inl OperationalError
      | Some bs \<Rightarrow>
          (case bind_ints [qty] of Inl e \<Rightarrow> Inl e
           | Inr _ \<Rightarrow>
               Inr (d\<lparr>book_tbl := Some (map (\<lambda>b. if bid b = book_id
                                                 then b\<lparr>bstock := bstock b - qty\<rparr> else b) bs)\<rparr>)))"

section \<open>Creating a sale: \<^verbatim>\<open>sales_record\<close>\<close>

text \<open>
  How one pass through the body of a \<^verbatim>\<open>while True\<close> loop ends: \<^verbatim>\<open>continue\<close>,
  \<^verbatim>\<open>break\<close>, or an exception that nothing catches.
\<close>

datatype flow = Continue | Break | Raise exn

text \<open>
  One pass through the loop body of \<^verbatim>\<open>sales_record\<close>, lines 134 to 188, on the input
  lines still to be read. It returns how the pass ended, the database, the lines it
  printed and the input it left. An exception leaves the \<^verbatim>\<open>with\<close> block, which rolls
  back, so the database is then the one the pass started from.
\<close>

definition sale_attempt :: "db \<Rightarrow> string list \<Rightarrow> flow \<times> db \<times> out list \<times> string list" where
  "sale_attempt d ins =
     (case ins of [] \<Rightarrow> (Raise EOFError, d, [], [])
      | sales_date # ins1 \<Rightarrow>
        if length sales_date \<noteq> 10 \<or> count_list sales_date CHR ''-'' \<noteq> 2
        then (Continue, d, [ErrDateFormat], ins1)
        else
        (case ins1 of [] \<Rightarrow> (Raise EOFError, d, [], [])
         | member_id # ins2 \<Rightarrow>
        (case ins2 of [] \<Rightarrow> (Raise EOFError, d, [], [])
         | book_id # ins3 \<Rightarrow>
        (case select_member d member_id of Inl e \<Rightarrow> (Raise e, d, [], ins3)
         | Inr None \<Rightarrow> (Continue, d, [ErrMemberInvalid], ins3)
         | Inr (Some _) \<Rightarrow>
        (case select_book d book_id of Inl e \<Rightarrow> (Raise e, d, [], ins3)
         | Inr None \<Rightarrow> (Continue, d, [ErrBookInvalid], ins3)
         | Inr (Some book_data) \<Rightarrow>
           let stock = bstock book_data; price = bprice book_data in
        (case ins3 of [] \<Rightarrow> (Raise EOFError, d, [], [])
         | qty_line # ins4 \<Rightarrow>
        (case py_int qty_line of None \<Rightarrow> (Continue, d, [ErrQtyNotPositive], ins4)
         | Some qty \<Rightarrow>
           if qty \<le> 0 then (Continue, d, [ErrQtyNotPositive], ins4)
           else
        (case ins4 of [] \<Rightarrow> (Raise EOFError, d, [], [])
         | discount_line # ins5 \<Rightarrow>
        (case py_int discount_line of None \<Rightarrow> (Continue, d, [ErrDiscountNegative], ins5)
         | Some discount \<Rightarrow>
           if discount < 0 then (Continue, d, [ErrDiscountNegative], ins5)
           else if qty > stock then (Continue, d, [ErrInsufficientStock stock], ins5)
           else
             let tot = price * qty - discount in
             (case insert_sale d sales_date member_id book_id qty discount tot of
                Inl e \<Rightarrow> (Raise e, d, [], ins5)
              | Inr d1 \<Rightarrow>
                  (case update_book_stock d1 qty book_id of
                     Inl e \<Rightarrow> (Raise e, d, [], ins5)
                   | Inr d2 \<Rightarrow> (Break, d2, [OutSaleAdded tot], ins5))))))))))))"

text \<open>
  The loop of lines 133 to 188. Every pass that ends in \<^verbatim>\<open>continue\<close> has read at least
  one line, so the loop ends on every finite input: with the sale made, or with
  \<^verbatim>\<open>EOFError\<close> when the input runs out.
\<close>

function sales_record_loop :: "db \<Rightarrow> string list \<Rightarrow> out list \<Rightarrow> run" where
  "sales_record_loop d ins outs =
     (case sale_attempt d ins of
        (Continue, d', ls, ins') \<Rightarrow> sales_record_loop d' ins' (outs @ ls)
      | (Break, d', ls, ins') \<Rightarrow>
          \<lparr>outcome = Inr (), store = d', printed = outs @ ls, unread = ins'\<rparr>
      | (Raise e, d', ls, ins') \<Rightarrow>
          \<lparr>outcome = Inl e, store = d', printed = outs @ ls, unread = ins'\<rparr>)"
  by pat_completeness auto
termination
  by (relation "measure (\<lambda>(d, ins, outs). length ins)")
     (auto simp: sale_attempt_def Let_def
        split: list.splits sum.splits option.splits if_splits)

definition sales_record :: "db \<Rightarrow> string list \<Rightarrow> run" where
  "sales_record d ins = sales_record_loop d ins []"

section \<open>The report: \<^verbatim>\<open>show_sales_report\<close>\<close>

text \<open>
  Lines 200 to 211: the join of sale, member and book, ordered by \<^verbatim>\<open>sale.sid\<close>. A row is
  (sid, sdate, mname, btitle, bprice, sqty, sdiscount, stotal).
\<close>

type_synonym report_row = "int \<times> string \<times> string \<times> string \<times> int \<times> int \<times> int \<times> int"

definition report_rows :: "db \<Rightarrow> exn + report_row list" where
  "report_rows d =
     (case sale_tbl d of None \<Rightarrow> Inl OperationalError
      | Some ss \<Rightarrow>
     (case member_tbl d of None \<Rightarrow> Inl OperationalError
      | Some ms \<Rightarrow>
     (case book_tbl d of None \<Rightarrow> Inl OperationalError
      | Some bs \<Rightarrow>
          Inr (sort_key fst
                [(sid s, sdate s, mname m, btitle b, bprice b, sqty s, sdiscount s, stotal s).
                   s \<leftarrow> ss, m \<leftarrow> ms, sale_mid s = mid m, b \<leftarrow> bs, sale_bid s = bid b]))))"

text \<open>Lines 218 to 228, one block of lines per row; the subtotal is computed for display.\<close>

definition report_line :: "report_row \<Rightarrow> out" where
  "report_line r =
     (case r of (sid0, sdate0, mname0, title, price, qty, disc, tot) \<Rightarrow>
        OutReportSale sid0 sdate0 mname0 title price qty disc (price * qty - disc) tot)"

definition show_sales_report :: "db \<Rightarrow> string list \<Rightarrow> run" where
  "show_sales_report d ins =
     (case report_rows d of
        Inl e \<Rightarrow> \<lparr>outcome = Inl e, store = d, printed = [], unread = ins\<rparr>
      | Inr rows \<Rightarrow>
          if rows = []
          then \<lparr>outcome = Inr (), store = d, printed = [OutNoSalesReport], unread = ins\<rparr>
          else \<lparr>outcome = Inr (), store = d,
                 printed = OutReportHeader # map report_line rows, unread = ins\<rparr>)"

section \<open>The selection menu of update and delete\<close>

text \<open>
  Lines 242 to 249 and 332 to 339: the join of sale and member, ordered by \<^verbatim>\<open>sale.sid\<close>.
  A row is (sid, sdate, mname).
\<close>

type_synonym menu_row = "int \<times> string \<times> string"

definition list_sales :: "db \<Rightarrow> exn + menu_row list" where
  "list_sales d =
     (case sale_tbl d of None \<Rightarrow> Inl OperationalError
      | Some ss \<Rightarrow>
     (case member_tbl d of None \<Rightarrow> Inl OperationalError
      | Some ms \<Rightarrow>
          Inr (sort_key fst
                [(sid s, sdate s, mname m). s \<leftarrow> ss, m \<leftarrow> ms, sale_mid s = mid m])))"

text \<open>Lines 255 to 259 and 345 to 349: the rows numbered from 1.\<close>

definition print_sales_list :: "menu_row list \<Rightarrow> out list" where
  "print_sales_list sales =
     OutListHeader #
     map (\<lambda>(i, sid0, sdate0, mname0). OutListRow i sid0 mname0 sdate0)
         (zip [1 ..< Suc (length sales)] sales) @
     [OutListFooter]"

section \<open>Updating a sale: \<^verbatim>\<open>update_sales_record\<close>\<close>

text \<open>
  The loop of lines 262 to 278. \<open>Inr None\<close> is the empty line (the function closes the
  connection and returns), \<open>Inr (Some sid)\<close> the \<^verbatim>\<open>break\<close> with the chosen sale.
\<close>

fun update_choice ::
    "menu_row list \<Rightarrow> string list \<Rightarrow> out list \<Rightarrow> (exn + int option) \<times> out list \<times> string list" where
  "update_choice sales [] outs = (Inl EOFError, outs, [])"
| "update_choice sales (choice # ins) outs =
     (if choice = [] then (Inr None, outs @ [OutCancelUpdate], ins)
      else
        (case py_int choice of
           None \<Rightarrow> update_choice sales ins (outs @ [ErrChoiceNotNumber])
         | Some n \<Rightarrow>
             let sale_index = n - 1 in
             if sale_index < 0 \<or> sale_index \<ge> int (length sales)
             then update_choice sales ins (outs @ [ErrInvalidChoice])
             else (Inr (Some (fst (sales ! nat sale_index))), outs, ins)))"

text \<open>
  Lines 281 to 286: \<^verbatim>\<open>SELECT bprice, sqty, sdiscount FROM sale JOIN book ON sale.bid = book.bid
  WHERE sale.sid = ?\<close> and \<^verbatim>\<open>fetchone\<close>. The \<^verbatim>\<open>sid\<close> was read from the table, so it binds.
\<close>

definition sale_book_data :: "db \<Rightarrow> int \<Rightarrow> exn + (int \<times> int \<times> int) option" where
  "sale_book_data d sid0 =
     (case sale_tbl d of None \<Rightarrow> Inl OperationalError
      | Some ss \<Rightarrow>
     (case book_tbl d of None \<Rightarrow> Inl OperationalError
      | Some bs \<Rightarrow>
          Inr (case [(bprice b, sqty s, sdiscount s).
                       s \<leftarrow> ss, sid s = sid0, b \<leftarrow> bs, sale_bid s = bid b] of
                 [] \<Rightarrow> None
               | r # _ \<Rightarrow> Some r)))"

text \<open>The loop of lines 297 to 305.\<close>

fun update_discount ::
    "string list \<Rightarrow> out list \<Rightarrow> (exn + int) \<times> out list \<times> string list" where
  "update_discount [] outs = (Inl EOFError, outs, [])"
| "update_discount (discount_line # ins) outs =
     (case py_int discount_line of
        None \<Rightarrow> update_discount ins (outs @ [ErrUpdateDiscountNotNumber])
      | Some new_discount \<Rightarrow>
          if new_discount < 0
          then update_discount ins (outs @ [ErrUpdateDiscountNegative])
          else (Inr new_discount, outs, ins))"

text \<open>Lines 311 to 315: \<^verbatim>\<open>UPDATE sale SET sdiscount = ?, stotal = ? WHERE sid = ?\<close>.\<close>

definition update_sale :: "db \<Rightarrow> int \<Rightarrow> int \<Rightarrow> int \<Rightarrow> exn + db" where
  "update_sale d new_discount new_stotal sid0 =
     (case sale_tbl d of None \<Rightarrow> Inl OperationalError
      | Some ss \<Rightarrow>
          (case bind_ints [new_discount, new_stotal] of Inl e \<Rightarrow> Inl e
           | Inr _ \<Rightarrow>
               Inr (d\<lparr>sale_tbl := Some (map (\<lambda>s. if sid s = sid0
                          then s\<lparr>sdiscount := new_discount, stotal := new_stotal\<rparr>
                          else s) ss)\<rparr>)))"

text \<open>
  Lines 238 to 318. Where the source calls \<^verbatim>\<open>conn.close()\<close> and returns inside the
  \<^verbatim>\<open>with\<close> block (lines 266 and 290), the block's closing commit finds the connection
  closed and raises \<^verbatim>\<open>ProgrammingError\<close>; nothing has been written at that point.
\<close>

definition update_sales_record :: "db \<Rightarrow> string list \<Rightarrow> run" where
  "update_sales_record d ins =
     (case list_sales d of
        Inl e \<Rightarrow> \<lparr>outcome = Inl e, store = d, printed = [], unread = ins\<rparr>
      | Inr sales \<Rightarrow>
        if sales = []
        then \<lparr>outcome = Inr (), store = d, printed = [OutNoSales], unread = ins\<rparr>
        else
        (case update_choice sales ins (print_sales_list sales) of
           (Inl e, outs, ins1) \<Rightarrow>
             \<lparr>outcome = Inl e, store = d, printed = outs, unread = ins1\<rparr>
         | (Inr None, outs, ins1) \<Rightarrow>
             \<lparr>outcome = Inl ProgrammingError, store = d, printed = outs, unread = ins1\<rparr>
         | (Inr (Some sid0), outs, ins1) \<Rightarrow>
        (case sale_book_data d sid0 of
           Inl e \<Rightarrow> \<lparr>outcome = Inl e, store = d, printed = outs, unread = ins1\<rparr>
         | Inr None \<Rightarrow>
             \<lparr>outcome = Inl ProgrammingError, store = d,
              printed = outs @ [ErrNoBookData], unread = ins1\<rparr>
         | Inr (Some (bprice0, sqty0, old_discount)) \<Rightarrow>
        (case update_discount ins1 (outs @ [OutCurrentDiscount old_discount]) of
           (Inl e, outs2, ins2) \<Rightarrow>
             \<lparr>outcome = Inl e, store = d, printed = outs2, unread = ins2\<rparr>
         | (Inr new_discount, outs2, ins2) \<Rightarrow>
             let new_stotal = bprice0 * sqty0 - new_discount in
             (case update_sale d new_discount new_stotal sid0 of
                Inl e \<Rightarrow> \<lparr>outcome = Inl e, store = d, printed = outs2, unread = ins2\<rparr>
              | Inr d' \<Rightarrow>
                  \<lparr>outcome = Inr (), store = d',
                   printed = outs2 @ [OutSaleUpdated sid0 new_stotal], unread = ins2\<rparr>)))))"

section \<open>Deleting a sale: \<^verbatim>\<open>delete_sales_record\<close>\<close>

text \<open>
  Line 370: \<^verbatim>\<open>DELETE FROM sale WHERE sid = ?\<close>. The \<^verbatim>\<open>sid\<close> was read from the table, so it
  binds; the sequence value stays.
\<close>

definition delete_sale :: "db \<Rightarrow> int \<Rightarrow> exn + db" where
  "delete_sale d sid_to_delete =
     (case sale_tbl d of None \<Rightarrow> Inl OperationalError
      | Some ss \<Rightarrow> Inr (d\<lparr>sale_tbl := Some (filter (\<lambda>s. sid s \<noteq> sid_to_delete) ss)\<rparr>))"

text \<open>
  The loop of lines 352 to 377. The empty line closes the connection inside the
  \<^verbatim>\<open>with\<close> block and returns (lines 355 to 358), which ends in \<^verbatim>\<open>ProgrammingError\<close> as
  in \<open>update_sales_record\<close>.
\<close>

fun delete_choice :: "db \<Rightarrow> menu_row list \<Rightarrow> string list \<Rightarrow> out list \<Rightarrow> run" where
  "delete_choice d sales [] outs =
     \<lparr>outcome = Inl EOFError, store = d, printed = outs, unread = []\<rparr>"
| "delete_choice d sales (choice # ins) outs =
     (if choice = []
      then \<lparr>outcome = Inl ProgrammingError, store = d,
             printed = outs @ [OutCancelDelete], unread = ins\<rparr>
      else
        (case py_int choice of
           None \<Rightarrow> delete_choice d sales ins (outs @ [ErrDeleteInvalidNumber])
         | Some n \<Rightarrow>
             if n < 1 \<or> n > int (length sales)
             then delete_choice d sales ins (outs @ [ErrDeleteInvalidNumber])
             else
               let sid_to_delete = fst (sales ! nat (n - 1)) in
               (case delete_sale d sid_to_delete of
                  Inl e \<Rightarrow> \<lparr>outcome = Inl e, store = d, printed = outs, unread = ins\<rparr>
                | Inr d' \<Rightarrow>
                    \<lparr>outcome = Inr (), store = d',
                     printed = outs @ [OutSaleDeleted sid_to_delete], unread = ins\<rparr>)))"

definition delete_sales_record :: "db \<Rightarrow> string list \<Rightarrow> run" where
  "delete_sales_record d ins =
     (case list_sales d of
        Inl e \<Rightarrow> \<lparr>outcome = Inl e, store = d, printed = [], unread = ins\<rparr>
      | Inr sales \<Rightarrow>
          if sales = []
          then \<lparr>outcome = Inr (), store = d, printed = [OutNoSales], unread = ins\<rparr>
          else delete_choice d sales ins (print_sales_list sales))"

section \<open>Bootstrap: \<^verbatim>\<open>init_db\<close>\<close>

text \<open>
  Lines 39 to 65: \<^verbatim>\<open>executescript\<close> with three \<^verbatim>\<open>CREATE TABLE IF NOT EXISTS\<close>. A table that
  exists is left as it is; a new one is empty, and a new sale table starts its sequence
  at 0. The script runs outside a transaction, so the new tables are committed at once.
\<close>

definition create_tables :: "db \<Rightarrow> db" where
  "create_tables d =
     \<lparr>member_tbl = Some (case member_tbl d of None \<Rightarrow> [] | Some ms \<Rightarrow> ms),
      book_tbl = Some (case book_tbl d of None \<Rightarrow> [] | Some bs \<Rightarrow> bs),
      sale_tbl = Some (case sale_tbl d of None \<Rightarrow> [] | Some ss \<Rightarrow> ss),
      sale_seq = (case sale_tbl d of None \<Rightarrow> 0 | Some _ \<Rightarrow> sale_seq d)\<rparr>"

text \<open>Line 69: \<^verbatim>\<open>INSERT INTO member VALUES (?, ?, ?, ?)\<close>; \<^verbatim>\<open>mid\<close> is the primary key.\<close>

definition insert_member :: "member_row \<Rightarrow> db \<Rightarrow> exn + db" where
  "insert_member m d =
     (case member_tbl d of None \<Rightarrow> Inl OperationalError
      | Some ms \<Rightarrow>
          if mid m \<in> set (map mid ms) then Inl IntegrityError
          else Inr (d\<lparr>member_tbl := Some (ms @ [m])\<rparr>))"

text \<open>Line 78: \<^verbatim>\<open>INSERT INTO book VALUES (?, ?, ?, ?)\<close>; \<^verbatim>\<open>bid\<close> is the primary key.\<close>

definition insert_book :: "book_row \<Rightarrow> db \<Rightarrow> exn + db" where
  "insert_book b d =
     (case book_tbl d of None \<Rightarrow> Inl OperationalError
      | Some bs \<Rightarrow>
          (case bind_ints [bprice b, bstock b] of Inl e \<Rightarrow> Inl e
           | Inr _ \<Rightarrow>
               if bid b \<in> set (map bid bs) then Inl IntegrityError
               else Inr (d\<lparr>book_tbl := Some (bs @ [b])\<rparr>)))"

text \<open>\<^verbatim>\<open>executemany\<close>: the statement once per parameter tuple, stopping at the first error.\<close>

fun executemany :: "('a \<Rightarrow> db \<Rightarrow> exn + db) \<Rightarrow> 'a list \<Rightarrow> db \<Rightarrow> exn + db" where
  "executemany stmt [] d = Inr d"
| "executemany stmt (x # xs) d =
     (case stmt x d of Inl e \<Rightarrow> Inl e | Inr d' \<Rightarrow> executemany stmt xs d')"

text \<open>The seed rows of lines 71 to 73, 80 to 82 and 92 to 95.\<close>

definition seed_members :: "member_row list" where
  "seed_members =
     [\<lparr>mid = ''M001'', mname = ''Alice'', mphone = ''0912-345678'',
       memail = Some ''alice@example.com''\<rparr>,
      \<lparr>mid = ''M002'', mname = ''Bob'', mphone = ''0923-456789'',
       memail = Some ''bob@example.com''\<rparr>,
      \<lparr>mid = ''M003'', mname = ''Cathy'', mphone = ''0934-567890'',
       memail = Some ''cathy@example.com''\<rparr>]"

definition seed_books :: "book_row list" where
  "seed_books =
     [\<lparr>bid = ''B001'', btitle = ''Python Programming'', bprice = 600, bstock = 50\<rparr>,
      \<lparr>bid = ''B002'', btitle = ''Data Science Basics'', bprice = 800, bstock = 30\<rparr>,
      \<lparr>bid = ''B003'', btitle = ''Machine Learning Guide'', bprice = 1200, bstock = 20\<rparr>]"

definition seed_sales :: "(string \<times> string \<times> string \<times> int \<times> int \<times> int) list" where
  "seed_sales =
     [(''2024-01-15'', ''M001'', ''B001'', 2, 100, 1100),
      (''2024-01-16'', ''M002'', ''B002'', 1, 50, 750),
      (''2024-01-17'', ''M001'', ''B003'', 3, 200, 3400),
      (''2024-01-18'', ''M003'', ''B001'', 1, 0, 600)]"

definition insert_seed_sale ::
    "string \<times> string \<times> string \<times> int \<times> int \<times> int \<Rightarrow> db \<Rightarrow> exn + db" where
  "insert_seed_sale r d =
     (case r of (date, m, b, qty, discount, tot) \<Rightarrow> insert_sale d date m b qty discount tot)"

text \<open>
  Lines 32 to 101. The three \<^verbatim>\<open>executemany\<close> calls run in one transaction; an exception
  in any of them leaves the \<^verbatim>\<open>with\<close> block, which rolls the inserts back, so what stays
  is the database with the tables created.
\<close>

definition init_db :: "db \<Rightarrow> string list \<Rightarrow> run" where
  "init_db d ins =
     (if \<not> (table_exists d ''member'' \<and> table_exists d ''book'' \<and> table_exists d ''sale'')
      then
        let d0 = create_tables d in
        (case executemany insert_member seed_members d0 of
           Inl e \<Rightarrow> \<lparr>outcome = Inl e, store = d0, printed = [OutCreatingTables], unread = ins\<rparr>
         | Inr d1 \<Rightarrow>
        (case executemany insert_book seed_books d1 of
           Inl e \<Rightarrow> \<lparr>outcome = Inl e, store = d0, printed = [OutCreatingTables], unread = ins\<rparr>
         | Inr d2 \<Rightarrow>
        (case executemany insert_seed_sale seed_sales d2 of
           Inl e \<Rightarrow> \<lparr>outcome = Inl e, store = d0, printed = [OutCreatingTables], unread = ins\<rparr>
         | Inr d3 \<Rightarrow>
             \<lparr>outcome = Inr (), store = d3,
              printed = [OutCreatingTables, OutInitDone], unread = ins\<rparr>)))
      else \<lparr>outcome = Inr (), store = d, printed = [OutTablesExist], unread = ins\<rparr>)"

section \<open>Well-formed databases\<close>

text \<open>
  The primary keys the schema declares: \<^verbatim>\<open>member.mid\<close>, \<^verbatim>\<open>book.bid\<close> and \<^verbatim>\<open>sale.sid\<close>
  are unique in their tables. SQLite enforces this on every table it holds.
\<close>

definition keys_unique :: "db \<Rightarrow> bool" where
  "keys_unique d =
     ((case member_tbl d of None \<Rightarrow> True | Some ms \<Rightarrow> distinct (map mid ms)) \<and>
      (case book_tbl d of None \<Rightarrow> True | Some bs \<Rightarrow> distinct (map bid bs)) \<and>
      (case sale_tbl d of None \<Rightarrow> True | Some ss \<Rightarrow> distinct (map sid ss)))"

text \<open>Every book's stock is non-negative (the tables that do not exist hold no book).\<close>

definition stock_ok :: "db \<Rightarrow> bool" where
  "stock_ok d = (case book_tbl d of None \<Rightarrow> True | Some bs \<Rightarrow> list_all (\<lambda>b. 0 \<le> bstock b) bs)"

text \<open>
  The database before the first run, and the one a first run is expected to leave: the
  seed rows once each, the four sales numbered 1 to 4.
\<close>

definition no_tables :: db where
  "no_tables = \<lparr>member_tbl = None, book_tbl = None, sale_tbl = None, sale_seq = 0\<rparr>"

definition seed_sale_rows :: "sale_row list" where
  "seed_sale_rows =
     [\<lparr>sid = 1, sdate = ''2024-01-15'', sale_mid = ''M001'', sale_bid = ''B001'',
       sqty = 2, sdiscount = 100, stotal = 1100\<rparr>,
      \<lparr>sid = 2, sdate = ''2024-01-16'', sale_mid = ''M002'', sale_bid = ''B002'',
       sqty = 1, sdiscount = 50, stotal = 750\<rparr>,
      \<lparr>sid = 3, sdate = ''2024-01-17'', sale_mid = ''M001'', sale_bid = ''B003'',
       sqty = 3, sdiscount = 200, stotal = 3400\<rparr>,
      \<lparr>sid = 4, sdate = ''2024-01-18'', sale_mid = ''M003'', sale_bid = ''B001'',
       sqty = 1, sdiscount = 0, stotal = 600\<rparr>]"

definition seeded :: db where
  "seeded =
     \<lparr>member_tbl = Some seed_members, book_tbl = Some seed_books,
      sale_tbl = Some seed_sale_rows, sale_seq = 4\<rparr>"

text \<open>
  The seed database after the price of B002 has been changed from 800 to 900 directly in
  storage, as in the test the specification describes for UpdateSale.
\<close>

definition repriced :: db where
  "repriced = seeded\<lparr>book_tbl := Some
     [\<lparr>bid = ''B001'', btitle = ''Python Programming'', bprice = 600, bstock = 50\<rparr>,
      \<lparr>bid = ''B002'', btitle = ''Data Science Basics'', bprice = 900, bstock = 30\<rparr>,
      \<lparr>bid = ''B003'', btitle = ''Machine Learning Guide'', bprice = 1200, bstock = 20\<rparr>]\<rparr>"

text \<open>
  The seed database with the recorded sequence value of the sale table at the largest
  \<^verbatim>\<open>sid\<close> there is.
\<close>

definition ids_used_up :: db where
  "ids_used_up = seeded\<lparr>sale_seq := 2 ^ 63 - 1\<rparr>"

text \<open>
  The seed database without the row of book B002 in the book table: the schema declares no
  foreign key, so the sale table may name a book that the book table does not hold (sale
  2 does here).
\<close>

definition orphaned :: db where
  "orphaned = seeded\<lparr>book_tbl := Some
     [\<lparr>bid = ''B001'', btitle = ''Python Programming'', bprice = 600, bstock = 50\<rparr>,
      \<lparr>bid = ''B003'', btitle = ''Machine Learning Guide'', bprice = 1200, bstock = 20\<rparr>]\<rparr>"

text \<open>The seed database with every sale deleted.\<close>

definition no_sales :: db where
  "no_sales = seeded\<lparr>sale_tbl := Some []\<rparr>"

text \<open>
  The date format in the words of the specification: the length of \<^verbatim>\<open>YYYY-MM-DD\<close> and
  exactly two separators, at indices 4 and 7. It is not part of the program; the check
  the program makes is the one in \<open>sale_attempt\<close>.
\<close>

definition spec_date_format :: "string \<Rightarrow> bool" where
  "spec_date_format s =
     (length s = 10 \<and> count_list s CHR ''-'' = 2 \<and> s ! 4 = CHR ''-'' \<and> s ! 7 = CHR ''-'')"

section \<open>Auxiliary facts\<close>

lemmas py_int_eval = py_int_def strip_def is_space_def parse_nat_def is_digit_def digit_val_def

lemmas seed_eval = seeded_def seed_members_def seed_books_def seed_sale_rows_def

lemma fold_max_ge: "(a::int) \<le> fold max xs a"
  by (induction xs arbitrary: a) (auto intro: order_trans [OF max.cobounded2])

lemma fold_max_mem: "(x::int) \<in> set xs \<Longrightarrow> x \<le> fold max xs a"
proof (induction xs arbitrary: a)
  case Nil
  then show ?case by simp
next
  case (Cons y ys)
  show ?case
  proof (cases "x = y")
    case True
    have "y \<le> max y a" by simp
    also have "\<dots> \<le> fold max ys (max y a)" by (rule fold_max_ge)
    finally show ?thesis using True by simp
  next
    case False
    with Cons show ?thesis by simp
  qed
qed

text \<open>The id AUTOINCREMENT hands out is larger than every id in the table.\<close>

lemma next_sid_fresh: "s \<in> set ss \<Longrightarrow> sid s < next_sid ss q"
  using fold_max_mem [of "sid s" "map sid ss" q] by (simp add: next_sid_def)

lemma find_map_update:
  "find (\<lambda>b. bid b = k) bs = Some b \<Longrightarrow>
   find (\<lambda>b. bid b = k) (map (\<lambda>x. if bid x = k then x\<lparr>bstock := bstock x - q\<rparr> else x) bs)
     = Some (b\<lparr>bstock := bstock b - q\<rparr>)"
  by (induction bs) (auto split: if_splits)

text \<open>The seed database evaluated.\<close>

lemma seeded_tables:
  "member_tbl seeded = Some seed_members" "book_tbl seeded = Some seed_books"
  "sale_tbl seeded = Some seed_sale_rows" "sale_seq seeded = 4"
  by (simp_all add: seeded_def)

lemma list_sales_seeded:
  "list_sales seeded = Inr [(1, ''2024-01-15'', ''Alice''), (2, ''2024-01-16'', ''Bob''),
       (3, ''2024-01-17'', ''Alice''), (4, ''2024-01-18'', ''Cathy'')]"
  by (simp add: list_sales_def seed_eval)

lemma keys_unique_seeded: "keys_unique seeded"
  by (simp add: keys_unique_def seed_eval)

lemma sale_book_data_seeded_2: "sale_book_data seeded 2 = Inr (Some (800, 1, 50))"
  by (simp add: sale_book_data_def seed_eval)

text \<open>Joins on a primary key: the key selects exactly one row, or none.\<close>

lemma concat_if_key_unique:
  "distinct (map f xs) \<Longrightarrow> x \<in> set xs \<Longrightarrow>
   concat (map (\<lambda>y. if f x = f y then g y else []) xs) = g x"
proof (induction xs)
  case Nil
  then show ?case by simp
next
  case (Cons a xs)
  show ?case
  proof (cases "a = x")
    case True
    have "\<forall>y \<in> set xs. f x \<noteq> f y" using Cons.prems(1) True by auto
    then have "concat (map (\<lambda>y. if f x = f y then g y else []) xs) = []"
      by (induction xs) auto
    with True show ?thesis by simp
  next
    case False
    with Cons.prems have x: "x \<in> set xs" by simp
    have "f a \<notin> f ` set xs" using Cons.prems(1) by simp
    moreover have "f x \<in> f ` set xs" using x by simp
    ultimately have "f x \<noteq> f a" by metis
    with Cons.IH Cons.prems(1) x show ?thesis by simp
  qed
qed

lemma concat_if_key_unique':
  "distinct (map f xs) \<Longrightarrow> x \<in> set xs \<Longrightarrow>
   concat (map (\<lambda>y. if f y = f x then g y else []) xs) = g x"
  using concat_if_key_unique [of f xs x g] by (simp add: eq_commute [of "f x"])

lemma concat_if_key_none:
  "k \<notin> f ` set xs \<Longrightarrow> concat (map (\<lambda>y. if k = f y then g y else []) xs) = []"
  by (induction xs) auto

lemma sale_book_data_unique:
  assumes "sale_tbl d = Some ss" and "book_tbl d = Some bs"
    and "distinct (map sid ss)" and "distinct (map bid bs)"
    and "s \<in> set ss" and "b \<in> set bs" and "bid b = sale_bid s"
  shows "sale_book_data d (sid s) = Inr (Some (bprice b, sqty s, sdiscount s))"
proof -
  have "concat (map (\<lambda>b'. if bid b = bid b' then [(bprice b', sqty s, sdiscount s)] else []) bs)
      = [(bprice b, sqty s, sdiscount s)]"
    using assms(4,6) by (rule concat_if_key_unique)
  moreover have "concat (map (\<lambda>s'. if sid s' = sid s
        then concat (map (\<lambda>b'. if sale_bid s' = bid b'
               then [(bprice b', sqty s', sdiscount s')] else []) bs) else []) ss)
      = concat (map (\<lambda>b'. if sale_bid s = bid b'
               then [(bprice b', sqty s, sdiscount s)] else []) bs)"
    using assms(3,5) by (rule concat_if_key_unique')
  ultimately show ?thesis
    using assms(1,2,7) by (simp add: sale_book_data_def)
qed

lemma list_sales_mem:
  assumes "list_sales d = Inr sales" and "sale_tbl d = Some ss" and "member_tbl d = Some ms"
  shows "r \<in> set sales \<longleftrightarrow>
     (\<exists>s \<in> set ss. \<exists>m \<in> set ms. sale_mid s = mid m \<and> r = (sid s, sdate s, mname m))"
  using assms by (auto simp: list_sales_def split: if_splits) blast+

lemma list_sales_tables:
  "list_sales d = Inr sales \<Longrightarrow> \<exists>ss ms. sale_tbl d = Some ss \<and> member_tbl d = Some ms"
  by (auto simp: list_sales_def split: option.splits)


lemma report_rows_mem:
  assumes "report_rows d = Inr rows" and "sale_tbl d = Some ss" and "member_tbl d = Some ms"
    and "book_tbl d = Some bs"
  shows "r \<in> set rows \<longleftrightarrow>
     (\<exists>s \<in> set ss. \<exists>m \<in> set ms. \<exists>b \<in> set bs. sale_mid s = mid m \<and> sale_bid s = bid b \<and>
        r = (sid s, sdate s, mname m, btitle b, bprice b, sqty s, sdiscount s, stotal s))"
  using assms by (auto simp: report_rows_def split: if_splits) blast+

lemma report_rows_seeded:
  "report_rows seeded = Inr
     [(1, ''2024-01-15'', ''Alice'', ''Python Programming'', 600, 2, 100, 1100),
      (2, ''2024-01-16'', ''Bob'', ''Data Science Basics'', 800, 1, 50, 750),
      (3, ''2024-01-17'', ''Alice'', ''Machine Learning Guide'', 1200, 3, 200, 3400),
      (4, ''2024-01-18'', ''Cathy'', ''Python Programming'', 600, 1, 0, 600)]"
  by (simp add: report_rows_def seed_eval)

lemma list_sales_index:
  assumes "list_sales d = Inr sales" and "sale_tbl d = Some ss" and "i < length sales"
  shows "\<exists>s \<in> set ss. sid s = fst (sales ! i)"
proof -
  from list_sales_tables [OF assms(1)] assms(2) obtain ms where ms: "member_tbl d = Some ms"
    by auto
  have "sales ! i \<in> set sales" using assms(3) by simp
  with list_sales_mem [OF assms(1,2) ms, of "sales ! i"] show ?thesis by auto
qed

text \<open>Removing the one row with a given key, and what it does to a join.\<close>

lemma filter_key_remove1:
  "distinct (map f xs) \<Longrightarrow> x \<in> set xs \<Longrightarrow> filter (\<lambda>y. f y \<noteq> f x) xs = remove1 x xs"
proof (induction xs)
  case Nil
  then show ?case by simp
next
  case (Cons a xs)
  show ?case
  proof (cases "a = x")
    case True
    have "\<forall>y \<in> set xs. f x \<noteq> f y" using Cons.prems(1) True by auto
    then have "\<forall>y \<in> set xs. f y \<noteq> f x" by metis
    then have "filter (\<lambda>y. f y \<noteq> f x) xs = xs" by (simp add: filter_id_conv)
    with True show ?thesis by simp
  next
    case False
    with Cons.prems have x: "x \<in> set xs" by simp
    have "f a \<notin> f ` set xs" using Cons.prems(1) by simp
    moreover have "f x \<in> f ` set xs" using x by simp
    ultimately have "f a \<noteq> f x" by metis
    with Cons.IH Cons.prems(1) x False show ?thesis by simp
  qed
qed

lemma length_concat_remove1:
  "x \<in> set xs \<Longrightarrow>
   length (concat (map g xs)) = length (g x) + length (concat (map g (remove1 x xs)))"
  by (induction xs) auto

lemma list_sales_length_remove1:
  assumes "sale_tbl d = Some ss" and "member_tbl d = Some ms" and "distinct (map mid ms)"
    and "s \<in> set ss" and "m \<in> set ms" and "sale_mid s = mid m"
  shows "\<exists>sales sales'. list_sales d = Inr sales \<and>
      list_sales (d\<lparr>sale_tbl := Some (remove1 s ss)\<rparr>) = Inr sales' \<and>
      Suc (length sales') = length sales"
proof -
  let ?g = "\<lambda>s. concat (map (\<lambda>m. if sale_mid s = mid m
                                then [(sid s, sdate s, mname m)] else []) ms)"
  have "?g s = [(sid s, sdate s, mname m)]"
    using concat_if_key_unique [OF assms(3,5), of "\<lambda>m. [(sid s, sdate s, mname m)]"] assms(6)
    by simp
  then have "length (?g s) = 1" by simp
  with length_concat_remove1 [OF assms(4), of ?g]
  have "length (concat (map ?g ss)) = Suc (length (concat (map ?g (remove1 s ss))))" by simp
  then show ?thesis using assms(1,2) by (simp add: list_sales_def)
qed

lemma report_rows_length_remove1:
  assumes "sale_tbl d = Some ss" and "member_tbl d = Some ms" and "book_tbl d = Some bs"
    and "distinct (map mid ms)" and "distinct (map bid bs)"
    and "s \<in> set ss" and "m \<in> set ms" and "sale_mid s = mid m"
    and "b \<in> set bs" and "sale_bid s = bid b"
  shows "\<exists>rows rows'. report_rows d = Inr rows \<and>
      report_rows (d\<lparr>sale_tbl := Some (remove1 s ss)\<rparr>) = Inr rows' \<and>
      Suc (length rows') = length rows"
proof -
  let ?h = "\<lambda>s m. concat (map (\<lambda>b. if sale_bid s = bid b
               then [(sid s, sdate s, mname m, btitle b, bprice b, sqty s, sdiscount s, stotal s)]
               else []) bs)"
  let ?g = "\<lambda>s. concat (map (\<lambda>m. if sale_mid s = mid m then ?h s m else []) ms)"
  have "?h s m = [(sid s, sdate s, mname m, btitle b, bprice b, sqty s, sdiscount s, stotal s)]"
    using concat_if_key_unique [OF assms(5,9),
        of "\<lambda>b. [(sid s, sdate s, mname m, btitle b, bprice b, sqty s, sdiscount s, stotal s)]"]
      assms(10) by simp
  moreover have "?g s = ?h s m"
    using concat_if_key_unique [OF assms(4,7), of "?h s"] assms(8) by simp
  ultimately have "length (?g s) = 1" by simp
  with length_concat_remove1 [OF assms(6), of ?g]
  have "length (concat (map ?g ss)) = Suc (length (concat (map ?g (remove1 s ss))))" by simp
  then show ?thesis using assms(1,2,3) by (simp add: report_rows_def)
qed

text \<open>A sale whose book is not in the book table has no row in the report.\<close>

lemma report_rows_length_orphan:
  assumes "sale_tbl d = Some ss" and "member_tbl d = Some ms" and "book_tbl d = Some bs"
    and "s \<in> set ss" and "sale_bid s \<notin> bid ` set bs"
  shows "\<exists>rows rows'. report_rows d = Inr rows \<and>
      report_rows (d\<lparr>sale_tbl := Some (remove1 s ss)\<rparr>) = Inr rows' \<and>
      length rows' = length rows"
proof -
  let ?h = "\<lambda>s m. concat (map (\<lambda>b. if sale_bid s = bid b
               then [(sid s, sdate s, mname m, btitle b, bprice b, sqty s, sdiscount s, stotal s)]
               else []) bs)"
  let ?g = "\<lambda>s. concat (map (\<lambda>m. if sale_mid s = mid m then ?h s m else []) ms)"
  have h: "\<And>m. ?h s m = []"
    using assms(5) by (rule concat_if_key_none)
  have "(\<lambda>m. if sale_mid s = mid m then ?h s m else []) = (\<lambda>m. [])"
    by (rule ext) (simp only: h if_cancel)
  then have "?g s = concat (map (\<lambda>m. []) ms)"
    by (rule arg_cong [of _ _ "\<lambda>f. concat (map f ms)"])
  also have "\<dots> = []" by (induction ms) simp_all
  finally have "?g s = []" .
  with length_concat_remove1 [OF assms(4), of ?g]
  have "length (concat (map ?g ss)) = length (concat (map ?g (remove1 s ss)))" by simp
  then show ?thesis using assms(1,2,3) by (simp add: report_rows_def)
qed

text \<open>The menu row of a sale is there because the member of the sale is.\<close>

lemma list_sales_row_unique:
  assumes "list_sales d = Inr sales" and "sale_tbl d = Some ss" and "member_tbl d = Some ms"
    and "distinct (map sid ss)" and "i < length sales"
    and "fst (sales ! i) = sid s" and "s \<in> set ss"
  shows "\<exists>m \<in> set ms. sale_mid s = mid m"
proof -
  have "sales ! i \<in> set sales" using assms(5) by simp
  with list_sales_mem [OF assms(1,2,3), of "sales ! i"] obtain s' m where
    s': "s' \<in> set ss" and m: "m \<in> set ms" and sm: "sale_mid s' = mid m"
    and row: "sales ! i = (sid s', sdate s', mname m)" by blast
  from row assms(6) have "sid s' = sid s" by simp
  with assms(4,7) s' have "s' = s" by (auto simp: distinct_map dest: inj_onD)
  with m sm show ?thesis by auto
qed

text \<open>
  A join that gives at most one row per sale, carrying the key of the sale, has distinct
  keys; sorted by key it is strictly ascending.
\<close>

lemma join_keys_distinct:
  assumes "distinct (map f xs)"
    and "\<And>x. x \<in> set xs \<Longrightarrow> g x = [] \<or> (\<exists>r. g x = [r] \<and> fst r = f x)"
  shows "distinct (map fst (concat (map g xs)))"
  using assms
proof (induction xs)
  case Nil
  then show ?case by simp
next
  case (Cons a xs)
  have ih: "distinct (map fst (concat (map g xs)))"
    using Cons.prems by (intro Cons.IH) auto
  have keys: "set (map fst (concat (map g xs))) \<subseteq> f ` set xs"
  proof
    fix k assume "k \<in> set (map fst (concat (map g xs)))"
    then obtain x r where x: "x \<in> set xs" and r: "r \<in> set (g x)" and k: "k = fst r" by auto
    from Cons.prems(2) [of x] x r have "fst r = f x" by auto
    with x k show "k \<in> f ` set xs" by auto
  qed
  from Cons.prems(1) have fresh: "f a \<notin> f ` set xs" by simp
  from Cons.prems(2) [of a] consider "g a = []" | r where "g a = [r]" "fst r = f a" by auto
  then show ?case
  proof cases
    case 1
    with ih show ?thesis by simp
  next
    case 2
    with ih keys fresh show ?thesis by auto
  qed
qed

lemma sort_key_strict:
  assumes "distinct (map f xs)"
  shows "sorted_wrt (<) (map f (sort_key f xs))"
proof -
  have "mset (map f (sort_key f xs)) = mset (map f xs)" by simp
  then have "distinct (map f (sort_key f xs))"
    using assms by (metis mset_eq_imp_distinct_iff)
  moreover have "sorted (map f (sort_key f xs))" by simp
  ultimately show ?thesis by (simp add: strict_sorted_iff)
qed


lemma menu_join_row:
  assumes "distinct (map mid ms)"
  shows "concat (map (\<lambda>m. if sale_mid s = mid m then [(sid s, sdate s, mname m)] else []) ms) = []
     \<or> (\<exists>r. concat (map (\<lambda>m. if sale_mid s = mid m
                                 then [(sid s, sdate s, mname m)] else []) ms) = [r] \<and>
              fst r = sid s)"
proof (cases "sale_mid s \<in> mid ` set ms")
  case False
  then have "concat (map (\<lambda>m. if sale_mid s = mid m
                                then [(sid s, sdate s, mname m)] else []) ms) = []"
    by (rule concat_if_key_none)
  then show ?thesis by (rule disjI1)
next
  case True
  then obtain m where m: "m \<in> set ms" and sm: "sale_mid s = mid m" by blast
  have x: "concat (map (\<lambda>m. if sale_mid s = mid m
                            then [(sid s, sdate s, mname m)] else []) ms) =
           [(sid s, sdate s, mname m)]"
    unfolding sm using assms m by (rule concat_if_key_unique)
  show ?thesis
    by (rule disjI2, rule exI [of _ "(sid s, sdate s, mname m)"])
       (simp only: x fst_conv simp_thms)
qed

lemma report_join_row:
  assumes "distinct (map mid ms)" and "distinct (map bid bs)"
  shows "concat (map (\<lambda>m. if sale_mid s = mid m
            then concat (map (\<lambda>b. if sale_bid s = bid b
                   then [(sid s, sdate s, mname m, btitle b, bprice b, sqty s, sdiscount s,
                          stotal s)] else []) bs)
            else []) ms) = []
     \<or> (\<exists>r. concat (map (\<lambda>m. if sale_mid s = mid m
            then concat (map (\<lambda>b. if sale_bid s = bid b
                   then [(sid s, sdate s, mname m, btitle b, bprice b, sqty s, sdiscount s,
                          stotal s)] else []) bs)
            else []) ms) = [r] \<and> fst r = sid s)"
proof (cases "sale_mid s \<in> mid ` set ms")
  case False
  then have "concat (map (\<lambda>m. if sale_mid s = mid m
            then concat (map (\<lambda>b. if sale_bid s = bid b
                   then [(sid s, sdate s, mname m, btitle b, bprice b, sqty s, sdiscount s,
                          stotal s)] else []) bs)
            else []) ms) = []"
    by (rule concat_if_key_none)
  then show ?thesis by (rule disjI1)
next
  case True
  then obtain m where m: "m \<in> set ms" and sm: "sale_mid s = mid m" by blast
  have outer: "concat (map (\<lambda>m. if sale_mid s = mid m
            then concat (map (\<lambda>b. if sale_bid s = bid b
                   then [(sid s, sdate s, mname m, btitle b, bprice b, sqty s, sdiscount s,
                          stotal s)] else []) bs)
            else []) ms) =
        concat (map (\<lambda>b. if sale_bid s = bid b
                   then [(sid s, sdate s, mname m, btitle b, bprice b, sqty s, sdiscount s,
                          stotal s)] else []) bs)"
    unfolding sm using assms(1) m by (rule concat_if_key_unique)
  show ?thesis
  proof (cases "sale_bid s \<in> bid ` set bs")
    case False
    then have "concat (map (\<lambda>b. if sale_bid s = bid b
                   then [(sid s, sdate s, mname m, btitle b, bprice b, sqty s, sdiscount s,
                          stotal s)] else []) bs) = []"
      by (rule concat_if_key_none)
    with outer show ?thesis by (simp only: simp_thms)
  next
    case True
    then obtain b where b: "b \<in> set bs" and sb: "sale_bid s = bid b" by blast
    have inner: "concat (map (\<lambda>b. if sale_bid s = bid b
                   then [(sid s, sdate s, mname m, btitle b, bprice b, sqty s, sdiscount s,
                          stotal s)] else []) bs) =
          [(sid s, sdate s, mname m, btitle b, bprice b, sqty s, sdiscount s, stotal s)]"
      unfolding sb using assms(2) b by (rule concat_if_key_unique)
    show ?thesis
      by (rule disjI2,
          rule exI [of _ "(sid s, sdate s, mname m, btitle b, bprice b, sqty s, sdiscount s,
                           stotal s)"])
         (simp only: outer inner fst_conv simp_thms)
  qed
qed

text \<open>The database without book B002 evaluated.\<close>

lemma orphaned_tables:
  "member_tbl orphaned = Some seed_members"
  "sale_tbl orphaned = Some seed_sale_rows"
  by (simp_all add: orphaned_def seeded_def)

lemma list_sales_orphaned:
  "list_sales orphaned = Inr [(1, ''2024-01-15'', ''Alice''), (2, ''2024-01-16'', ''Bob''),
       (3, ''2024-01-17'', ''Alice''), (4, ''2024-01-18'', ''Cathy'')]"
  by (simp add: list_sales_def orphaned_def seed_eval)

section \<open>Properties of creating a sale\<close>

text \<open>
  C6, as the specification states it: the date check of CreateSale accepts a string if
  and only if it has the length of \<^verbatim>\<open>YYYY-MM-DD\<close> and exactly two separators, at indices 4
  and 7. This fails: \<^verbatim>\<open>20240201--\<close> has ten characters and two hyphens, none of them at
  index 4 or 7, and line 135 lets it pass; with the seed data the sale is then made.
\<close>

theorem C6_counterexample:
  "fst (sale_attempt seeded [''20240201--'', ''M001'', ''B002'', ''1'', ''0'']) = Break \<and>
   \<not> spec_date_format ''20240201--''"
  by (simp add: sale_attempt_def seed_eval select_member_def select_book_def py_int_eval
      insert_sale_def next_sid_def update_book_stock_def bind_ints_def sqlite_int_def
      spec_date_format_def Let_def)

text \<open>
  C6, amended: a pass of \<^verbatim>\<open>sales_record\<close> rejects the date (prints the date format
  error and prompts again, the database as it was) if and only if the string does not
  have exactly 10 characters or does not contain exactly two hyphens. Where the hyphens
  stand is not checked, and no calendar validity is.
\<close>

theorem C6_date_check:
  "(sale_attempt d (sales_date # ins) = (Continue, d, [ErrDateFormat], ins))
     = (\<not> (length sales_date = 10 \<and> count_list sales_date CHR ''-'' = 2))"
proof
  assume rejected: "sale_attempt d (sales_date # ins) = (Continue, d, [ErrDateFormat], ins)"
  show "\<not> (length sales_date = 10 \<and> count_list sales_date CHR ''-'' = 2)"
  proof
    assume "length sales_date = 10 \<and> count_list sales_date CHR ''-'' = 2"
    then have "snd (snd (sale_attempt d (sales_date # ins))) \<noteq> ([ErrDateFormat], ins)"
      by (auto simp: sale_attempt_def Let_def split: list.splits sum.splits option.splits)
    with rejected show False by simp
  qed
next
  assume "\<not> (length sales_date = 10 \<and> count_list sales_date CHR ''-'' = 2)"
  then show "sale_attempt d (sales_date # ins) = (Continue, d, [ErrDateFormat], ins)"
    by (auto simp: sale_attempt_def)
qed

theorem C6_date_check_witness:
  "sale_attempt seeded [''2024/02/01'', ''M001'']
     = (Continue, seeded, [ErrDateFormat], [''M001'']) \<and>
   sale_attempt seeded [''ab-cd-efgh'', ''M009'', ''B001'']
     \<noteq> (Continue, seeded, [ErrDateFormat], [''M009'', ''B001''])"
  using C6_date_check [of seeded "''2024/02/01''" "[''M001'']"]
        C6_date_check [of seeded "''ab-cd-efgh''" "[''M009'', ''B001'']"]
  by simp

text \<open>
  C1, as the specification states it: every CreateSale whose inputs pass all the
  validations inserts a sale row and decrements the stock. This fails for a discount of
  \<^verbatim>\<open>2**63\<close>: it is a non-negative integer and passes line 164, member and book are
  known and the quantity 1 is within the stock of 30, yet binding it at line 175 raises
  \<^verbatim>\<open>OverflowError\<close>, the function ends with that exception and the database is unchanged.
\<close>

theorem C1_counterexample:
  "select_member seeded ''M001'' \<noteq> Inr None \<and>
   map_sum id (map_option bstock) (select_book seeded ''B002'') = Inr (Some 30) \<and>
   py_int ''1'' = Some 1 \<and>
   py_int ''9223372036854775808'' = Some 9223372036854775808 \<and>
   sales_record seeded [''2024-02-01'', ''M001'', ''B002'', ''1'', ''9223372036854775808'']
     = \<lparr>outcome = Inl OverflowError, store = seeded, printed = [], unread = []\<rparr>"
  by (simp add: sales_record_def sale_attempt_def seed_eval select_member_def select_book_def
      py_int_eval insert_sale_def update_book_stock_def bind_ints_def sqlite_int_def Let_def)

text \<open>
  C1, amended: for every CreateSale whose inputs pass all the validations (date format,
  known member and book, quantity a positive integer not above the book's stock, discount
  a non-negative integer), whose discount and total \<open>price * quantity - discount\<close> fit
  a signed 64-bit SQLite INTEGER, and for which the sale table has a next \<^verbatim>\<open>sid\<close> to give
  (the largest ever handed out is below \<open>2 ^ 63 - 1\<close>), \<^verbatim>\<open>sales_record\<close> returns normally,
  the sale table is the old one followed by exactly one new row, under a \<^verbatim>\<open>sid\<close> no other
  row has, with that total (which may be negative), and the stock of the book is lower by
  exactly the quantity. The stored stock is an SQLite INTEGER, so the quantity fits as
  well; the sale table exists, as it does after every run of \<^verbatim>\<open>init_db\<close>.
\<close>

theorem C1_create_sale:
  assumes "length sales_date = 10" and "count_list sales_date CHR ''-'' = 2"
    and "select_member d member_id = Inr (Some m)"
    and "select_book d book_id = Inr (Some b)"
    and "py_int qty_line = Some qty" and "0 < qty" and "qty \<le> bstock b"
    and "py_int discount_line = Some discount" and "0 \<le> discount"
    and "sale_tbl d = Some ss" and "book_tbl d = Some bs"
    and "sqlite_int (bstock b)" and "sqlite_int discount"
    and "sqlite_int (bprice b * qty - discount)"
    and "sqlite_int (next_sid ss (sale_seq d))"
  shows "sales_record d (sales_date # member_id # book_id # qty_line # discount_line # rest) =
      \<lparr>outcome = Inr (),
       store = d\<lparr>sale_tbl := Some (ss @
                   [\<lparr>sid = next_sid ss (sale_seq d), sdate = sales_date, sale_mid = member_id,
                     sale_bid = book_id, sqty = qty, sdiscount = discount,
                     stotal = bprice b * qty - discount\<rparr>]),
                 sale_seq := next_sid ss (sale_seq d),
                 book_tbl := Some (map (\<lambda>x. if bid x = book_id
                                             then x\<lparr>bstock := bstock x - qty\<rparr> else x) bs)\<rparr>,
       printed = [OutSaleAdded (bprice b * qty - discount)],
       unread = rest\<rparr> \<and>
     select_book (store (sales_record d
            (sales_date # member_id # book_id # qty_line # discount_line # rest))) book_id
          = Inr (Some (b\<lparr>bstock := bstock b - qty\<rparr>)) \<and>
     (\<forall>s \<in> set ss. sid s \<noteq> next_sid ss (sale_seq d))"
proof -
  have q: "sqlite_int qty" using assms(6,7,12) by (simp add: sqlite_int_def)
  have g1: "sales_record d (sales_date # member_id # book_id # qty_line # discount_line # rest) =
      \<lparr>outcome = Inr (),
       store = d\<lparr>sale_tbl := Some (ss @
                   [\<lparr>sid = next_sid ss (sale_seq d), sdate = sales_date, sale_mid = member_id,
                     sale_bid = book_id, sqty = qty, sdiscount = discount,
                     stotal = bprice b * qty - discount\<rparr>]),
                 sale_seq := next_sid ss (sale_seq d),
                 book_tbl := Some (map (\<lambda>x. if bid x = book_id
                                             then x\<lparr>bstock := bstock x - qty\<rparr> else x) bs)\<rparr>,
       printed = [OutSaleAdded (bprice b * qty - discount)],
       unread = rest\<rparr>"
    using assms q
    by (simp add: sales_record_def sale_attempt_def insert_sale_def update_book_stock_def
        bind_ints_def Let_def)
  from assms(4,11) have "find (\<lambda>x. bid x = book_id) bs = Some b"
    by (simp add: select_book_def)
  then have g2: "select_book (store (sales_record d
            (sales_date # member_id # book_id # qty_line # discount_line # rest))) book_id
          = Inr (Some (b\<lparr>bstock := bstock b - qty\<rparr>))"
    unfolding g1 by (simp add: select_book_def find_map_update)
  have g3: "\<forall>s \<in> set ss. sid s \<noteq> next_sid ss (sale_seq d)"
    using next_sid_fresh [of _ ss "sale_seq d"] by fastforce
  from g1 g2 g3 show ?thesis by blast
qed

text \<open>
  The scenario of the specification: on the seed data, five copies of B001 for M001 at
  a discount of 50 give sale 5 with total \<open>600 * 5 - 50 = 2950\<close> and leave 45 in stock.
\<close>

theorem C1_create_sale_witness:
  "sales_record seeded [''2024-02-01'', ''M001'', ''B001'', ''5'', ''50''] =
     \<lparr>outcome = Inr (),
      store = seeded
        \<lparr>sale_tbl := Some (seed_sale_rows @
           [\<lparr>sid = 5, sdate = ''2024-02-01'', sale_mid = ''M001'', sale_bid = ''B001'',
             sqty = 5, sdiscount = 50, stotal = 2950\<rparr>]),
         sale_seq := 5,
         book_tbl := Some
           [\<lparr>bid = ''B001'', btitle = ''Python Programming'', bprice = 600, bstock = 45\<rparr>,
            \<lparr>bid = ''B002'', btitle = ''Data Science Basics'', bprice = 800, bstock = 30\<rparr>,
            \<lparr>bid = ''B003'', btitle = ''Machine Learning Guide'', bprice = 1200,
              bstock = 20\<rparr>]\<rparr>,
      printed = [OutSaleAdded 2950], unread = []\<rparr>"
proof -
  let ?m = "\<lparr>mid = ''M001'', mname = ''Alice'', mphone = ''0912-345678'',
             memail = Some ''alice@example.com''\<rparr>"
  let ?b = "\<lparr>bid = ''B001'', btitle = ''Python Programming'', bprice = 600, bstock = 50\<rparr>"
  have h1: "length ''2024-02-01'' = 10" and h2: "count_list ''2024-02-01'' CHR ''-'' = 2"
    by simp_all
  have h3: "select_member seeded ''M001'' = Inr (Some ?m)"
    by (simp add: select_member_def seed_eval)
  have h4: "select_book seeded ''B001'' = Inr (Some ?b)"
    by (simp add: select_book_def seed_eval)
  have h5: "py_int ''5'' = Some 5" and h8: "py_int ''50'' = Some 50"
    by (simp_all add: py_int_eval)
  have h6: "(0::int) < 5" and h7: "5 \<le> bstock ?b" and h9: "(0::int) \<le> 50"
    by simp_all
  have h10: "sale_tbl seeded = Some seed_sale_rows"
    and h11: "book_tbl seeded = Some seed_books"
    by (simp_all add: seeded_def)
  have h12: "sqlite_int (bstock ?b)" and h13: "sqlite_int 50"
    and h14: "sqlite_int (bprice ?b * 5 - 50)"
    by (simp_all add: sqlite_int_def)
  have n: "next_sid seed_sale_rows (sale_seq seeded) = 5"
    by (simp add: next_sid_def seeded_def seed_sale_rows_def)
  have h15: "sqlite_int (next_sid seed_sale_rows (sale_seq seeded))"
    by (simp add: n sqlite_int_def)
  from C1_create_sale [OF h1 h2 h3 h4 h5 h6 h7 h8 h9 h10 h11 h12 h13 h14 h15, of "[]"]
  show ?thesis by (simp add: n seed_books_def)
qed

text \<open>
  The same call when the ids of the sale table are used up: the INSERT of line 175 fails,
  the function ends with \<^verbatim>\<open>OperationalError\<close> and the database is unchanged. This is
  why the amended C1 asks for a next \<^verbatim>\<open>sid\<close>.
\<close>

lemma sales_record_ids_used_up:
  "keys_unique ids_used_up \<and>
   sales_record ids_used_up [''2024-02-01'', ''M001'', ''B001'', ''5'', ''50''] =
     \<lparr>outcome = Inl OperationalError, store = ids_used_up, printed = [], unread = []\<rparr>"
  by (simp add: sales_record_def sale_attempt_def ids_used_up_def seed_eval keys_unique_def
      select_member_def select_book_def py_int_eval insert_sale_def next_sid_def
      bind_ints_def sqlite_int_def Let_def)

text \<open>
  A pass that does not end with the sale made leaves the database as it was, and a pass
  that ends in \<^verbatim>\<open>continue\<close> has read at least one line.
\<close>

lemma sale_attempt_no_break_keeps_db:
  "sale_attempt d ins = (fl, d', ls, ins') \<Longrightarrow> fl \<noteq> Break \<Longrightarrow> d' = d"
  by (auto simp: sale_attempt_def Let_def
      split: list.splits sum.splits option.splits if_splits)

lemma sale_attempt_shorter:
  "sale_attempt d ins = (Continue, d', ls, ins') \<Longrightarrow> length ins' < length ins"
  by (auto simp: sale_attempt_def Let_def
      split: list.splits sum.splits option.splits if_splits)

text \<open>
  C2: a CreateSale that fails a validation reports the failure with the database exactly
  as it was before the call, so no row of any table has been inserted, updated or
  deleted. The failures, in the order the pass checks them: unknown member, unknown
  book, a quantity that is no positive integer, a discount that is no non-negative
  integer, a quantity above the stock. Each pass ends in \<^verbatim>\<open>continue\<close> with one error
  line printed and the database it started from.
\<close>

theorem C2_failed_validation:
  assumes "length sales_date = 10" and "count_list sales_date CHR ''-'' = 2"
  shows
   "(select_member d member_id = Inr None \<longrightarrow>
       sale_attempt d (sales_date # member_id # book_id # rest)
         = (Continue, d, [ErrMemberInvalid], rest)) \<and>
    (select_member d member_id = Inr (Some m) \<and> select_book d book_id = Inr None \<longrightarrow>
       sale_attempt d (sales_date # member_id # book_id # rest)
         = (Continue, d, [ErrBookInvalid], rest)) \<and>
    (select_member d member_id = Inr (Some m) \<and> select_book d book_id = Inr (Some b) \<and>
     (py_int qty_line = None \<or> (\<exists>q. py_int qty_line = Some q \<and> q \<le> 0)) \<longrightarrow>
       sale_attempt d (sales_date # member_id # book_id # qty_line # rest)
         = (Continue, d, [ErrQtyNotPositive], rest)) \<and>
    (select_member d member_id = Inr (Some m) \<and> select_book d book_id = Inr (Some b) \<and>
     py_int qty_line = Some qty \<and> 0 < qty \<and>
     (py_int discount_line = None \<or> (\<exists>x. py_int discount_line = Some x \<and> x < 0)) \<longrightarrow>
       sale_attempt d (sales_date # member_id # book_id # qty_line # discount_line # rest)
         = (Continue, d, [ErrDiscountNegative], rest)) \<and>
    (select_member d member_id = Inr (Some m) \<and> select_book d book_id = Inr (Some b) \<and>
     py_int qty_line = Some qty \<and> 0 < qty \<and>
     py_int discount_line = Some discount \<and> 0 \<le> discount \<and> bstock b < qty \<longrightarrow>
       sale_attempt d (sales_date # member_id # book_id # qty_line # discount_line # rest)
         = (Continue, d, [ErrInsufficientStock (bstock b)], rest))"
proof (intro conjI impI)
  assume "select_member d member_id = Inr None"
  with assms show "sale_attempt d (sales_date # member_id # book_id # rest)
         = (Continue, d, [ErrMemberInvalid], rest)"
    by (simp add: sale_attempt_def)
next
  assume "select_member d member_id = Inr (Some m) \<and> select_book d book_id = Inr None"
  with assms show "sale_attempt d (sales_date # member_id # book_id # rest)
         = (Continue, d, [ErrBookInvalid], rest)"
    by (simp add: sale_attempt_def)
next
  assume "select_member d member_id = Inr (Some m) \<and> select_book d book_id = Inr (Some b) \<and>
     (py_int qty_line = None \<or> (\<exists>q. py_int qty_line = Some q \<and> q \<le> 0))"
  with assms show "sale_attempt d (sales_date # member_id # book_id # qty_line # rest)
         = (Continue, d, [ErrQtyNotPositive], rest)"
    by (auto simp: sale_attempt_def Let_def)
next
  assume "select_member d member_id = Inr (Some m) \<and> select_book d book_id = Inr (Some b) \<and>
     py_int qty_line = Some qty \<and> 0 < qty \<and>
     (py_int discount_line = None \<or> (\<exists>x. py_int discount_line = Some x \<and> x < 0))"
  with assms show "sale_attempt d
        (sales_date # member_id # book_id # qty_line # discount_line # rest)
         = (Continue, d, [ErrDiscountNegative], rest)"
    by (auto simp: sale_attempt_def Let_def)
next
  assume "select_member d member_id = Inr (Some m) \<and> select_book d book_id = Inr (Some b) \<and>
     py_int qty_line = Some qty \<and> 0 < qty \<and>
     py_int discount_line = Some discount \<and> 0 \<le> discount \<and> bstock b < qty"
  with assms show "sale_attempt d
        (sales_date # member_id # book_id # qty_line # discount_line # rest)
         = (Continue, d, [ErrInsufficientStock (bstock b)], rest)"
    by (auto simp: sale_attempt_def Let_def)
qed

text \<open>
  One instance of each failure on the seed data; the last is the scenario of the
  specification, 999 copies of B002, of which 30 are in stock.
\<close>

theorem C2_failed_validation_witness:
  "sale_attempt seeded [''2024-02-01'', ''M009'', ''B001'', ''5'']
     = (Continue, seeded, [ErrMemberInvalid], [''5'']) \<and>
   sale_attempt seeded [''2024-02-01'', ''M001'', ''B009'', ''5'']
     = (Continue, seeded, [ErrBookInvalid], [''5'']) \<and>
   sale_attempt seeded [''2024-02-01'', ''M001'', ''B002'', ''0'', ''50'']
     = (Continue, seeded, [ErrQtyNotPositive], [''50'']) \<and>
   sale_attempt seeded [''2024-02-01'', ''M001'', ''B002'', ''5'', ''-1'', ''x'']
     = (Continue, seeded, [ErrDiscountNegative], [''x'']) \<and>
   sale_attempt seeded [''2024-02-01'', ''M001'', ''B002'', ''999'', ''0'', ''x'']
     = (Continue, seeded, [ErrInsufficientStock 30], [''x''])"
proof -
  let ?m = "\<lparr>mid = ''M001'', mname = ''Alice'', mphone = ''0912-345678'',
             memail = Some ''alice@example.com''\<rparr>"
  let ?b = "\<lparr>bid = ''B002'', btitle = ''Data Science Basics'', bprice = 800, bstock = 30\<rparr>"
  have f1: "length ''2024-02-01'' = 10" and f2: "count_list ''2024-02-01'' CHR ''-'' = 2"
    by simp_all
  have m9: "select_member seeded ''M009'' = Inr None"
    and m1: "select_member seeded ''M001'' = Inr (Some ?m)"
    by (simp_all add: select_member_def seed_eval)
  have b9: "select_book seeded ''B009'' = Inr None"
    and b2: "select_book seeded ''B002'' = Inr (Some ?b)"
    by (simp_all add: select_book_def seed_eval)
  have p0: "py_int ''0'' = Some 0" and p5: "py_int ''5'' = Some 5"
    and pm: "py_int ''-1'' = Some (- 1)" and p999: "py_int ''999'' = Some 999"
    by (simp_all add: py_int_eval)
  note c = C2_failed_validation [OF f1 f2]
  from c [where d = seeded and member_id = "''M009''" and book_id = "''B001''"
        and rest = "[''5'']"] m9
  have g1: "sale_attempt seeded [''2024-02-01'', ''M009'', ''B001'', ''5'']
     = (Continue, seeded, [ErrMemberInvalid], [''5''])" by simp
  from c [where d = seeded and member_id = "''M001''" and m = ?m and book_id = "''B009''"
        and rest = "[''5'']"] m1 b9
  have g2: "sale_attempt seeded [''2024-02-01'', ''M001'', ''B009'', ''5'']
     = (Continue, seeded, [ErrBookInvalid], [''5''])" by simp
  from c [where d = seeded and member_id = "''M001''" and m = ?m and book_id = "''B002''"
        and b = ?b and qty_line = "''0''" and rest = "[''50'']"] m1 b2 p0
  have g3: "sale_attempt seeded [''2024-02-01'', ''M001'', ''B002'', ''0'', ''50'']
     = (Continue, seeded, [ErrQtyNotPositive], [''50''])" by simp
  from c [where d = seeded and member_id = "''M001''" and m = ?m and book_id = "''B002''"
        and b = ?b and qty_line = "''5''" and qty = 5 and discount_line = "''-1''"
        and rest = "[''x'']"] m1 b2 p5 pm
  have g4: "sale_attempt seeded [''2024-02-01'', ''M001'', ''B002'', ''5'', ''-1'', ''x'']
     = (Continue, seeded, [ErrDiscountNegative], [''x''])" by simp
  from c [where d = seeded and member_id = "''M001''" and m = ?m and book_id = "''B002''"
        and b = ?b and qty_line = "''999''" and qty = 999 and discount_line = "''0''"
        and discount = 0 and rest = "[''x'']"] m1 b2 p999 p0
  have g5: "sale_attempt seeded [''2024-02-01'', ''M001'', ''B002'', ''999'', ''0'', ''x'']
     = (Continue, seeded, [ErrInsufficientStock 30], [''x''])" by simp
  from g1 g2 g3 g4 g5 show ?thesis by simp
qed

text \<open>
  Every run of \<^verbatim>\<open>sales_record\<close>, with any number of rejected passes: the database it
  leaves is the one it found, or the result of one successful pass on the one it found;
  a run that ends in an exception has changed nothing.
\<close>

lemma sales_record_loop_effect:
  "store (sales_record_loop d ins outs) = d \<or>
   (\<exists>ins0 d' ls ins'. sale_attempt d ins0 = (Break, d', ls, ins') \<and>
      store (sales_record_loop d ins outs) = d' \<and>
      outcome (sales_record_loop d ins outs) = Inr ())"
proof (induction "length ins" arbitrary: ins outs rule: less_induct)
  case less
  obtain fl d' ls ins' where a: "sale_attempt d ins = (fl, d', ls, ins')"
    by (cases "sale_attempt d ins") auto
  show ?case
  proof (cases fl)
    case Continue
    with a have sh: "length ins' < length ins" by (auto dest: sale_attempt_shorter)
    from sale_attempt_no_break_keeps_db [OF a] Continue have same: "d' = d" by simp
    have "sales_record_loop d ins outs = sales_record_loop d ins' (outs @ ls)"
      using a Continue same by (subst sales_record_loop.simps) simp
    with less.hyps [OF sh, of "outs @ ls"] show ?thesis by simp
  next
    case Break
    have "store (sales_record_loop d ins outs) = d'"
      and "outcome (sales_record_loop d ins outs) = Inr ()"
      using a Break by (subst sales_record_loop.simps, simp)+
    with a Break show ?thesis by blast
  next
    case (Raise e)
    from sale_attempt_no_break_keeps_db [OF a] Raise have "d' = d" by simp
    moreover have "store (sales_record_loop d ins outs) = d'"
      using a Raise by (subst sales_record_loop.simps) simp
    ultimately show ?thesis by simp
  qed
qed

lemma sales_record_exception_keeps_db:
  "outcome (sales_record d ins) \<noteq> Inr () \<Longrightarrow> store (sales_record d ins) = d"
  using sales_record_loop_effect [of d ins "[]"] by (auto simp: sales_record_def)

section \<open>Properties of updating a sale\<close>

text \<open>
  What the selection prompt and the discount prompt of \<^verbatim>\<open>update_sales_record\<close> print and
  return, however often they are repeated.
\<close>

lemma py_int_Nil: "py_int [] = None"
  by (simp add: py_int_def strip_def)

lemma print_sales_list_no_result:
  "OutSaleUpdated k t \<notin> set (print_sales_list sales)"
  "OutSaleDeleted k \<notin> set (print_sales_list sales)"
  "OutCancelUpdate \<notin> set (print_sales_list sales)"
  "OutCancelDelete \<notin> set (print_sales_list sales)"
  by (auto simp: print_sales_list_def)

lemma update_choice_printed:
  "update_choice sales ins outs = (res, outs', ins') \<Longrightarrow>
   \<exists>ex. outs' = outs @ ex \<and> set ex \<subseteq> {ErrChoiceNotNumber, ErrInvalidChoice, OutCancelUpdate}"
proof (induction sales ins outs rule: update_choice.induct)
  case (1 sales outs)
  then show ?case by simp
next
  case (2 sales choice ins outs)
  then show ?case
    by (fastforce simp: Let_def split: if_splits option.splits)
qed

lemma update_choice_chosen:
  "update_choice sales ins outs = (Inr (Some k), outs', ins') \<Longrightarrow>
   \<exists>i < length sales. k = fst (sales ! i)"
proof (induction sales ins outs rule: update_choice.induct)
  case (1 sales outs)
  then show ?case by simp
next
  case (2 sales choice ins outs)
  then show ?case
    by (auto simp: Let_def split: if_splits option.splits intro!: exI [of _ "nat (_ - 1)"])
qed

lemma update_discount_printed:
  "update_discount ins outs = (res, outs', ins') \<Longrightarrow>
   \<exists>ex. outs' = outs @ ex \<and> set ex \<subseteq> {ErrUpdateDiscountNotNumber, ErrUpdateDiscountNegative}"
proof (induction ins outs rule: update_discount.induct)
  case (1 outs)
  then show ?case by simp
next
  case (2 discount_line ins outs)
  then show ?case
    by (fastforce split: if_splits option.splits)
qed

lemma update_discount_nonneg:
  "update_discount ins outs = (Inr nd, outs', ins') \<Longrightarrow> 0 \<le> nd"
  by (induction ins outs rule: update_discount.induct) (auto split: if_splits option.splits)

lemma update_choice_chosen_printed:
  "update_choice sales ins outs = (Inr (Some k), outs', ins') \<Longrightarrow>
   \<exists>ex. outs' = outs @ ex \<and> set ex \<subseteq> {ErrChoiceNotNumber, ErrInvalidChoice}"
proof (induction sales ins outs rule: update_choice.induct)
  case (1 sales outs)
  then show ?case by simp
next
  case (2 sales choice ins outs)
  then show ?case
    by (fastforce simp: Let_def split: if_splits option.splits)
qed



text \<open>
  Every run of \<^verbatim>\<open>update_sales_record\<close>, on any input: either the database is left as it
  was and no update is announced, or one sale of the menu was chosen, the function
  returned normally, and the sale table differs in the discount and total of the rows
  with the chosen \<^verbatim>\<open>sid\<close> only.
\<close>

lemma update_sales_record_cases:
  assumes "sale_tbl d = Some ss"
  shows "(store (update_sales_record d ins) = d \<and>
          (\<forall>k t. OutSaleUpdated k t \<notin> set (printed (update_sales_record d ins)))) \<or>
         (\<exists>sales i k price qty old nd.
            list_sales d = Inr sales \<and> i < length sales \<and> k = fst (sales ! i) \<and>
            sale_book_data d k = Inr (Some (price, qty, old)) \<and> 0 \<le> nd \<and>
            sqlite_int nd \<and> sqlite_int (price * qty - nd) \<and>
            outcome (update_sales_record d ins) = Inr () \<and>
            store (update_sales_record d ins) =
              d\<lparr>sale_tbl := Some (map (\<lambda>s. if sid s = k
                     then s\<lparr>sdiscount := nd, stotal := price * qty - nd\<rparr> else s) ss)\<rparr> \<and>
            (\<forall>k' t. OutSaleUpdated k' t \<in> set (printed (update_sales_record d ins))
                 \<longrightarrow> k' = k \<and> t = price * qty - nd) \<and>
            OutCancelUpdate \<notin> set (printed (update_sales_record d ins)))"
proof (cases "list_sales d")
  case (Inl e)
  then show ?thesis by (simp add: update_sales_record_def)
next
  case (Inr sales)
  note ls = this
  show ?thesis
  proof (cases "sales = []")
    case True
    with ls show ?thesis by (simp add: update_sales_record_def)
  next
    case False
    note ne = this
    obtain r1 outs1 ins1 where uc: "update_choice sales ins (print_sales_list sales) = (r1, outs1, ins1)"
      by (cases "update_choice sales ins (print_sales_list sales)") auto
    from update_choice_printed [OF uc] obtain ex1 where
      o1: "outs1 = print_sales_list sales @ ex1"
      and e1: "set ex1 \<subseteq> {ErrChoiceNotNumber, ErrInvalidChoice, OutCancelUpdate}" by blast
    have no1: "\<And>k t. OutSaleUpdated k t \<notin> set outs1"
      using o1 e1 print_sales_list_no_result(1) by auto
    show ?thesis
    proof (cases r1)
      case (Inl e)
      with ls ne uc no1 show ?thesis by (simp add: update_sales_record_def)
    next
      case (Inr c)
      show ?thesis
      proof (cases c)
        case None
        with Inr ls ne uc no1 show ?thesis by (simp add: update_sales_record_def)
      next
        case (Some k)
        from uc Inr Some have uc': "update_choice sales ins (print_sales_list sales) = (Inr (Some k), outs1, ins1)"
          by simp
        from update_choice_chosen [OF uc'] obtain i where i: "i < length sales" "k = fst (sales ! i)"
          by blast
        from update_choice_chosen_printed [OF uc'] obtain ex1' where
          o1': "outs1 = print_sales_list sales @ ex1'"
          and e1': "set ex1' \<subseteq> {ErrChoiceNotNumber, ErrInvalidChoice}" by blast
        have nc: "OutCancelUpdate \<notin> set outs1"
          using o1' e1' print_sales_list_no_result(3) by auto
        show ?thesis
        proof (cases "sale_book_data d k")
          case (Inl e)
          with uc' ls ne no1 show ?thesis by (simp add: update_sales_record_def)
        next
          case (Inr bd)
          note sbd = this
          show ?thesis
          proof (cases bd)
            case None
            with sbd uc' ls ne no1 show ?thesis by (simp add: update_sales_record_def)
          next
            case (Some trip)
            obtain price qty old where trip: "trip = (price, qty, old)" by (cases trip) auto
            obtain r2 outs2 ins2 where
              ud: "update_discount ins1 (outs1 @ [OutCurrentDiscount old]) = (r2, outs2, ins2)"
              by (cases "update_discount ins1 (outs1 @ [OutCurrentDiscount old])") auto
            from update_discount_printed [OF ud] obtain ex2 where
              o2: "outs2 = (outs1 @ [OutCurrentDiscount old]) @ ex2"
              and e2: "set ex2 \<subseteq> {ErrUpdateDiscountNotNumber, ErrUpdateDiscountNegative}"
              by blast
            have no2: "\<And>k t. OutSaleUpdated k t \<notin> set outs2"
              using o2 e2 no1 by auto
            have nc2: "OutCancelUpdate \<notin> set outs2"
              using o2 e2 nc by auto
            show ?thesis
            proof (cases r2)
              case (Inl e)
              with ud sbd Some trip uc' ls ne no2 show ?thesis
                by (simp add: update_sales_record_def)
            next
              case (Inr nd)
              from ud Inr have ud': "update_discount ins1 (outs1 @ [OutCurrentDiscount old])
                  = (Inr nd, outs2, ins2)" by simp
              have nn: "0 \<le> nd" by (rule update_discount_nonneg [OF ud'])
              show ?thesis
              proof (cases "sqlite_int nd \<and> sqlite_int (price * qty - nd)")
                case False
                with ud' sbd Some trip uc' ls ne no2 assms show ?thesis
                  by (auto simp: update_sales_record_def update_sale_def bind_ints_def Let_def)
              next
                case True
                have "store (update_sales_record d ins) =
                    d\<lparr>sale_tbl := Some (map (\<lambda>s. if sid s = k
                     then s\<lparr>sdiscount := nd, stotal := price * qty - nd\<rparr> else s) ss)\<rparr>"
                  and "outcome (update_sales_record d ins) = Inr ()"
                  and "printed (update_sales_record d ins)
                         = outs2 @ [OutSaleUpdated k (price * qty - nd)]"
                  using True ud' sbd Some trip uc' ls ne assms
                  by (simp_all add: update_sales_record_def update_sale_def bind_ints_def Let_def)
                with True nn i ls sbd Some trip no2 nc2 show ?thesis
                  by auto
              qed
            qed
          qed
        qed
      qed
    qed
  qed
qed



text \<open>
  C3, as the specification states it: every UpdateSale on an existing sale with a
  non-negative new discount stores \<open>price * quantity - discount\<close> as the new total. This
  fails for the new discount \<^verbatim>\<open>2**63\<close> on sale 2 of the seed data: it passes line 300, and
  binding it at line 311 raises \<^verbatim>\<open>OverflowError\<close>; the function ends with that exception
  and the stored total stays 750.
\<close>

theorem C3_counterexample:
  "py_int ''9223372036854775808'' = Some 9223372036854775808 \<and>
   sale_book_data seeded 2 = Inr (Some (800, 1, 50)) \<and>
   outcome (update_sales_record seeded [''2'', ''9223372036854775808'']) = Inl OverflowError \<and>
   store (update_sales_record seeded [''2'', ''9223372036854775808'']) = seeded"
proof -
  have p: "py_int ''9223372036854775808'' = Some 9223372036854775808"
    and c: "py_int ''2'' = Some 2"
    by (simp_all add: py_int_eval)
  have "update_sale seeded 9223372036854775808 (800 * 1 - 9223372036854775808) 2
      = Inl OverflowError"
    by (simp add: update_sale_def seeded_tables bind_ints_def sqlite_int_def)
  then show ?thesis
    using p c by (simp add: update_sales_record_def list_sales_seeded sale_book_data_seeded_2)
qed

text \<open>
  C3, amended: for every UpdateSale on an existing sale (chosen from the menu, with its book
  in the book table) with a non-negative new discount, where the new discount and the new
  total fit a signed 64-bit SQLite INTEGER, the new stored total is the price the book has
  now times the quantity stored in the sale minus the new discount. The total stored
  before, and so the price at the time of the sale, plays no part.
\<close>

theorem C3_update_total:
  assumes "keys_unique d" and "sale_tbl d = Some ss" and "book_tbl d = Some bs"
    and "list_sales d = Inr sales"
    and "py_int choice = Some n" and "1 \<le> n" and "n \<le> int (length sales)"
    and "fst (sales ! nat (n - 1)) = sid s" and "s \<in> set ss"
    and "b \<in> set bs" and "bid b = sale_bid s"
    and "py_int discount_line = Some nd" and "0 \<le> nd"
    and "sqlite_int nd" and "sqlite_int (bprice b * sqty s - nd)"
  shows "update_sales_record d (choice # discount_line # rest) =
      \<lparr>outcome = Inr (),
       store = d\<lparr>sale_tbl := Some (map (\<lambda>r. if sid r = sid s
                     then r\<lparr>sdiscount := nd, stotal := bprice b * sqty s - nd\<rparr> else r) ss)\<rparr>,
       printed = print_sales_list sales @
                 [OutCurrentDiscount (sdiscount s), OutSaleUpdated (sid s) (bprice b * sqty s - nd)],
       unread = rest\<rparr> \<and>
     s\<lparr>sdiscount := nd, stotal := bprice b * sqty s - nd\<rparr>
       \<in> set (the (sale_tbl (store (update_sales_record d (choice # discount_line # rest))))) \<and>
     (\<forall>r \<in> set (the (sale_tbl (store (update_sales_record d (choice # discount_line # rest))))).
        sid r = sid s \<longrightarrow> stotal r = bprice b * sqty s - nd)"
proof -
  from assms(1,2,3) have ds: "distinct (map sid ss)" and db: "distinct (map bid bs)"
    by (simp_all add: keys_unique_def)
  have sbd: "sale_book_data d (sid s) = Inr (Some (bprice b, sqty s, sdiscount s))"
    using assms(2,3) ds db assms(9,10,11) by (rule sale_book_data_unique)
  have ne: "sales \<noteq> []" and c: "choice \<noteq> []"
    using assms(5,6,7) py_int_Nil by auto
  have g1: "update_sales_record d (choice # discount_line # rest) =
      \<lparr>outcome = Inr (),
       store = d\<lparr>sale_tbl := Some (map (\<lambda>r. if sid r = sid s
                     then r\<lparr>sdiscount := nd, stotal := bprice b * sqty s - nd\<rparr> else r) ss)\<rparr>,
       printed = print_sales_list sales @
                 [OutCurrentDiscount (sdiscount s), OutSaleUpdated (sid s) (bprice b * sqty s - nd)],
       unread = rest\<rparr>"
    using assms(2,4,5,6,7,8,12,13,14,15) sbd ne c
    by (simp add: update_sales_record_def update_sale_def bind_ints_def Let_def)
  show ?thesis unfolding g1 using assms(9) by auto
qed

text \<open>
  The test of the specification: B002 was sold at 800 (sale 2: one copy, discount 50,
  total 750) and costs 900 now; a new discount of 10 gives \<open>900 * 1 - 10 = 890\<close>.
\<close>

theorem C3_update_total_witness:
  "update_sales_record repriced [''2'', ''10''] =
     \<lparr>outcome = Inr (),
      store = repriced\<lparr>sale_tbl := Some
        [\<lparr>sid = 1, sdate = ''2024-01-15'', sale_mid = ''M001'', sale_bid = ''B001'',
          sqty = 2, sdiscount = 100, stotal = 1100\<rparr>,
         \<lparr>sid = 2, sdate = ''2024-01-16'', sale_mid = ''M002'', sale_bid = ''B002'',
          sqty = 1, sdiscount = 10, stotal = 890\<rparr>,
         \<lparr>sid = 3, sdate = ''2024-01-17'', sale_mid = ''M001'', sale_bid = ''B003'',
          sqty = 3, sdiscount = 200, stotal = 3400\<rparr>,
         \<lparr>sid = 4, sdate = ''2024-01-18'', sale_mid = ''M003'', sale_bid = ''B001'',
          sqty = 1, sdiscount = 0, stotal = 600\<rparr>]\<rparr>,
      printed = print_sales_list [(1, ''2024-01-15'', ''Alice''), (2, ''2024-01-16'', ''Bob''),
                  (3, ''2024-01-17'', ''Alice''), (4, ''2024-01-18'', ''Cathy'')] @
                [OutCurrentDiscount 50, OutSaleUpdated 2 890],
      unread = []\<rparr>"
proof -
  let ?s = "\<lparr>sid = 2, sdate = ''2024-01-16'', sale_mid = ''M002'', sale_bid = ''B002'',
          sqty = 1, sdiscount = 50, stotal = 750\<rparr>"
  let ?b = "\<lparr>bid = ''B002'', btitle = ''Data Science Basics'', bprice = 900, bstock = 30\<rparr>"
  let ?sales = "[(1, ''2024-01-15'', ''Alice''), (2, ''2024-01-16'', ''Bob''),
       (3, ''2024-01-17'', ''Alice''), (4, ''2024-01-18'', ''Cathy'')] :: menu_row list"
  have h1: "keys_unique repriced"
    by (simp add: keys_unique_def repriced_def seed_eval)
  have h2: "sale_tbl repriced = Some seed_sale_rows"
    and h3: "book_tbl repriced = Some
     [\<lparr>bid = ''B001'', btitle = ''Python Programming'', bprice = 600, bstock = 50\<rparr>, ?b,
      \<lparr>bid = ''B003'', btitle = ''Machine Learning Guide'', bprice = 1200, bstock = 20\<rparr>]"
    by (simp_all add: repriced_def seeded_def)
  have h4: "list_sales repriced = Inr ?sales"
    by (simp add: list_sales_def repriced_def seed_eval)
  have h5: "py_int ''2'' = Some 2" and h12: "py_int ''10'' = Some 10"
    by (simp_all add: py_int_eval)
  have h6: "(1::int) \<le> 2" and h7: "2 \<le> int (length ?sales)" and h13: "(0::int) \<le> 10"
    by simp_all
  have h8: "fst (?sales ! nat (2 - 1)) = sid ?s" by simp
  have h9: "?s \<in> set seed_sale_rows" by (simp add: seed_sale_rows_def)
  have h10: "?b \<in> set [\<lparr>bid = ''B001'', btitle = ''Python Programming'', bprice = 600, bstock = 50\<rparr>, ?b,
      \<lparr>bid = ''B003'', btitle = ''Machine Learning Guide'', bprice = 1200, bstock = 20\<rparr>]"
    and h11: "bid ?b = sale_bid ?s"
    by simp_all
  have h14: "sqlite_int 10" and h15: "sqlite_int (bprice ?b * sqty ?s - 10)"
    by (simp_all add: sqlite_int_def)
  from C3_update_total [OF h1 h2 h3 h4 h5 h6 h7 h8 h9 h10 h11 h12 h13 h14 h15, of "[]"]
  show ?thesis by (simp add: seed_sale_rows_def)
qed

text \<open>
  C5: every successful UpdateSale (every run of \<^verbatim>\<open>update_sales_record\<close>, on any input, that
  announces the update of sale \<open>k\<close> with total \<open>t\<close>) returns normally and changes the
  database in the sale table only; the table keeps its rows in place, every row keeps its
  \<^verbatim>\<open>sid\<close>, date, member, book and quantity, the rows with another \<^verbatim>\<open>sid\<close> are unchanged, and
  a row with \<^verbatim>\<open>sid\<close> \<open>k\<close> differs in discount and total only. The member table and the book
  table, stock included, are as before.
\<close>

theorem C5_update_frame:
  assumes "OutSaleUpdated k t \<in> set (printed (update_sales_record d ins))"
    and "sale_tbl d = Some ss"
  shows "\<exists>nd ss'. 0 \<le> nd \<and>
      outcome (update_sales_record d ins) = Inr () \<and>
      store (update_sales_record d ins) = d\<lparr>sale_tbl := Some ss'\<rparr> \<and>
      member_tbl (store (update_sales_record d ins)) = member_tbl d \<and>
      book_tbl (store (update_sales_record d ins)) = book_tbl d \<and>
      sale_seq (store (update_sales_record d ins)) = sale_seq d \<and>
      k \<in> sid ` set ss \<and>
      length ss' = length ss \<and>
      (\<forall>i < length ss.
          sid (ss' ! i) = sid (ss ! i) \<and> sdate (ss' ! i) = sdate (ss ! i) \<and>
          sale_mid (ss' ! i) = sale_mid (ss ! i) \<and> sale_bid (ss' ! i) = sale_bid (ss ! i) \<and>
          sqty (ss' ! i) = sqty (ss ! i) \<and>
          (if sid (ss ! i) = k
           then ss' ! i = (ss ! i)\<lparr>sdiscount := nd, stotal := t\<rparr>
           else ss' ! i = ss ! i))"
proof -
  let ?r = "update_sales_record d ins"
  from update_sales_record_cases [OF assms(2), of ins] assms(1)
  obtain sales i k' price qty old nd where
    ls: "list_sales d = Inr sales" and i: "i < length sales" and k': "k' = fst (sales ! i)"
    and nn: "0 \<le> nd" and oc: "outcome ?r = Inr ()"
    and st: "store ?r = d\<lparr>sale_tbl := Some (map (\<lambda>s. if sid s = k'
                     then s\<lparr>sdiscount := nd, stotal := price * qty - nd\<rparr> else s) ss)\<rparr>"
    and pr: "\<forall>k'' t'. OutSaleUpdated k'' t' \<in> set (printed ?r)
                 \<longrightarrow> k'' = k' \<and> t' = price * qty - nd"
    by blast
  from pr assms(1) have kk: "k' = k" and tt: "price * qty - nd = t" by auto
  from list_sales_index [OF ls assms(2) i] k' kk have mem: "k \<in> sid ` set ss"
    by (metis image_eqI)
  let ?ss' = "map (\<lambda>s. if sid s = k then s\<lparr>sdiscount := nd, stotal := t\<rparr> else s) ss"
  have st': "store ?r = d\<lparr>sale_tbl := Some ?ss'\<rparr>" using st kk tt by simp
  show ?thesis
    apply (rule exI [of _ nd], rule exI [of _ ?ss'])
    using nn oc st' mem by simp
qed

text \<open>The run of the C3 test again: sale 2 is announced, and the frame holds.\<close>

lemma update_repriced_printed:
  "OutSaleUpdated 2 890 \<in> set (printed (update_sales_record repriced [''2'', ''10'']))"
proof -
  have "list_sales repriced = Inr [(1, ''2024-01-15'', ''Alice''), (2, ''2024-01-16'', ''Bob''),
       (3, ''2024-01-17'', ''Alice''), (4, ''2024-01-18'', ''Cathy'')]"
    by (simp add: list_sales_def repriced_def seed_eval)
  moreover have "sale_book_data repriced 2 = Inr (Some (900, 1, 50))"
    by (simp add: sale_book_data_def repriced_def seed_eval)
  moreover have "py_int ''2'' = Some 2" and "py_int ''10'' = Some 10"
    by (simp_all add: py_int_eval)
  moreover have "update_sale repriced 10 890 2 \<noteq> Inl OverflowError \<and>
      update_sale repriced 10 890 2 \<noteq> Inl OperationalError"
    by (simp add: update_sale_def repriced_def seeded_def bind_ints_def sqlite_int_def)
  ultimately show ?thesis
    by (auto simp: update_sales_record_def update_sale_def bind_ints_def split: sum.splits option.splits)
qed

theorem C5_update_frame_witness:
  "OutSaleUpdated 2 890 \<in> set (printed (update_sales_record repriced [''2'', ''10''])) \<and>
   outcome (update_sales_record repriced [''2'', ''10'']) = Inr () \<and>
   member_tbl (store (update_sales_record repriced [''2'', ''10''])) = member_tbl repriced \<and>
   book_tbl (store (update_sales_record repriced [''2'', ''10''])) = book_tbl repriced \<and>
   map sqty (the (sale_tbl (store (update_sales_record repriced [''2'', ''10''])))) = [2, 1, 3, 1]"
proof -
  have h2: "sale_tbl repriced = Some seed_sale_rows"
    by (simp add: repriced_def seeded_def)
  from C5_update_frame [OF update_repriced_printed h2]
  obtain nd ss' where oc: "outcome (update_sales_record repriced [''2'', ''10'']) = Inr ()"
    and st: "store (update_sales_record repriced [''2'', ''10'']) = repriced\<lparr>sale_tbl := Some ss'\<rparr>"
    and mt: "member_tbl (store (update_sales_record repriced [''2'', ''10''])) = member_tbl repriced"
    and bt: "book_tbl (store (update_sales_record repriced [''2'', ''10''])) = book_tbl repriced"
    and len: "length ss' = length seed_sale_rows"
    and rows: "\<forall>i < length seed_sale_rows. sqty (ss' ! i) = sqty (seed_sale_rows ! i)"
    by blast
  have "map sqty ss' = map sqty seed_sale_rows"
    using len rows by (simp add: list_eq_iff_nth_eq)
  then have "map sqty ss' = [2, 1, 3, 1]" by (simp add: seed_sale_rows_def)
  with update_repriced_printed oc st mt bt show ?thesis by simp
qed

section \<open>Properties of deleting a sale\<close>

text \<open>
  Every run of the prompt loop of \<^verbatim>\<open>delete_sales_record\<close>: it prints error lines and
  then either ends with the database as it was, or deletes the rows with the \<^verbatim>\<open>sid\<close> of one
  menu entry, announces it and returns normally.
\<close>

lemma delete_choice_cases:
  assumes "sale_tbl d = Some ss"
  shows "\<exists>ex. printed (delete_choice d sales ins outs) = outs @ ex \<and>
     ((store (delete_choice d sales ins outs) = d \<and>
       set ex \<subseteq> {ErrDeleteInvalidNumber, OutCancelDelete}) \<or>
      (\<exists>i < length sales. \<exists>ex'.
         ex = ex' @ [OutSaleDeleted (fst (sales ! i))] \<and>
         set ex' \<subseteq> {ErrDeleteInvalidNumber} \<and>
         outcome (delete_choice d sales ins outs) = Inr () \<and>
         store (delete_choice d sales ins outs) =
           d\<lparr>sale_tbl := Some (filter (\<lambda>s. sid s \<noteq> fst (sales ! i)) ss)\<rparr>))"
  using assms
proof (induction d sales ins outs rule: delete_choice.induct)
  case (1 d sales outs)
  then show ?case by simp
next
  case (2 d sales choice ins outs)
  show ?case
  proof (cases "choice = []")
    case True
    then show ?thesis by simp
  next
    case False
    note c = this
    show ?thesis
    proof (cases "py_int choice")
      case None
      from "2.IH"(1) [OF c None "2.prems"] obtain ex where
        ex: "printed (delete_choice d sales ins (outs @ [ErrDeleteInvalidNumber]))
               = (outs @ [ErrDeleteInvalidNumber]) @ ex \<and>
     ((store (delete_choice d sales ins (outs @ [ErrDeleteInvalidNumber])) = d \<and>
       set ex \<subseteq> {ErrDeleteInvalidNumber, OutCancelDelete}) \<or>
      (\<exists>i < length sales. \<exists>ex'.
         ex = ex' @ [OutSaleDeleted (fst (sales ! i))] \<and>
         set ex' \<subseteq> {ErrDeleteInvalidNumber} \<and>
         outcome (delete_choice d sales ins (outs @ [ErrDeleteInvalidNumber])) = Inr () \<and>
         store (delete_choice d sales ins (outs @ [ErrDeleteInvalidNumber])) =
           d\<lparr>sale_tbl := Some (filter (\<lambda>s. sid s \<noteq> fst (sales ! i)) ss)\<rparr>))"
        by blast
      have eq: "delete_choice d sales (choice # ins) outs
          = delete_choice d sales ins (outs @ [ErrDeleteInvalidNumber])"
        using c None by simp
      show ?thesis
        unfolding eq
        apply (rule exI [of _ "ErrDeleteInvalidNumber # ex"])
        using ex by (auto simp: Cons_eq_append_conv)
    next
      case (Some n)
      show ?thesis
      proof (cases "n < 1 \<or> n > int (length sales)")
        case True
        from "2.IH"(2) [OF c Some True "2.prems"] obtain ex where
        ex: "printed (delete_choice d sales ins (outs @ [ErrDeleteInvalidNumber]))
               = (outs @ [ErrDeleteInvalidNumber]) @ ex \<and>
     ((store (delete_choice d sales ins (outs @ [ErrDeleteInvalidNumber])) = d \<and>
       set ex \<subseteq> {ErrDeleteInvalidNumber, OutCancelDelete}) \<or>
      (\<exists>i < length sales. \<exists>ex'.
         ex = ex' @ [OutSaleDeleted (fst (sales ! i))] \<and>
         set ex' \<subseteq> {ErrDeleteInvalidNumber} \<and>
         outcome (delete_choice d sales ins (outs @ [ErrDeleteInvalidNumber])) = Inr () \<and>
         store (delete_choice d sales ins (outs @ [ErrDeleteInvalidNumber])) =
           d\<lparr>sale_tbl := Some (filter (\<lambda>s. sid s \<noteq> fst (sales ! i)) ss)\<rparr>))"
          by blast
        have eq: "delete_choice d sales (choice # ins) outs
          = delete_choice d sales ins (outs @ [ErrDeleteInvalidNumber])"
          using c Some True by simp
        show ?thesis
          unfolding eq
          apply (rule exI [of _ "ErrDeleteInvalidNumber # ex"])
          using ex by (auto simp: Cons_eq_append_conv)
      next
        case False
        then have i: "nat (n - 1) < length sales" by auto
        have "printed (delete_choice d sales (choice # ins) outs)
              = outs @ [OutSaleDeleted (fst (sales ! nat (n - 1)))]"
          and "outcome (delete_choice d sales (choice # ins) outs) = Inr ()"
          and "store (delete_choice d sales (choice # ins) outs) =
           d\<lparr>sale_tbl := Some (filter (\<lambda>s. sid s \<noteq> fst (sales ! nat (n - 1))) ss)\<rparr>"
          using c Some False "2.prems" by (simp_all add: delete_sale_def Let_def)
        with i show ?thesis by auto
      qed
    qed
  qed
qed

lemma delete_sales_record_cases:
  assumes "sale_tbl d = Some ss"
  shows "(store (delete_sales_record d ins) = d \<and>
          (\<forall>k. OutSaleDeleted k \<notin> set (printed (delete_sales_record d ins)))) \<or>
         (\<exists>sales i. list_sales d = Inr sales \<and> i < length sales \<and>
            outcome (delete_sales_record d ins) = Inr () \<and>
            store (delete_sales_record d ins) =
              d\<lparr>sale_tbl := Some (filter (\<lambda>s. sid s \<noteq> fst (sales ! i)) ss)\<rparr> \<and>
            (\<forall>k. OutSaleDeleted k \<in> set (printed (delete_sales_record d ins))
                 \<longrightarrow> k = fst (sales ! i)) \<and>
            OutCancelDelete \<notin> set (printed (delete_sales_record d ins)))"
proof (cases "list_sales d")
  case (Inl e)
  then show ?thesis by (simp add: delete_sales_record_def)
next
  case (Inr sales)
  show ?thesis
  proof (cases "sales = []")
    case True
    with Inr show ?thesis by (simp add: delete_sales_record_def)
  next
    case False
    with Inr have eq: "delete_sales_record d ins
        = delete_choice d sales ins (print_sales_list sales)"
      by (simp add: delete_sales_record_def)
    from delete_choice_cases [OF assms, of sales ins "print_sales_list sales"]
    obtain ex where pr: "printed (delete_sales_record d ins) = print_sales_list sales @ ex"
      and alt: "(store (delete_sales_record d ins) = d \<and>
                 set ex \<subseteq> {ErrDeleteInvalidNumber, OutCancelDelete}) \<or>
         (\<exists>i < length sales. \<exists>ex'.
           ex = ex' @ [OutSaleDeleted (fst (sales ! i))] \<and>
           set ex' \<subseteq> {ErrDeleteInvalidNumber} \<and>
           outcome (delete_sales_record d ins) = Inr () \<and>
           store (delete_sales_record d ins) =
             d\<lparr>sale_tbl := Some (filter (\<lambda>s. sid s \<noteq> fst (sales ! i)) ss)\<rparr>)"
      unfolding eq by blast
    from alt show ?thesis
    proof
      assume a: "store (delete_sales_record d ins) = d \<and>
                 set ex \<subseteq> {ErrDeleteInvalidNumber, OutCancelDelete}"
      then have "\<forall>k. OutSaleDeleted k \<notin> set (printed (delete_sales_record d ins))"
        using pr print_sales_list_no_result(2) by auto
      with a show ?thesis by simp
    next
      assume "\<exists>i < length sales. \<exists>ex'.
           ex = ex' @ [OutSaleDeleted (fst (sales ! i))] \<and>
           set ex' \<subseteq> {ErrDeleteInvalidNumber} \<and>
           outcome (delete_sales_record d ins) = Inr () \<and>
           store (delete_sales_record d ins) =
             d\<lparr>sale_tbl := Some (filter (\<lambda>s. sid s \<noteq> fst (sales ! i)) ss)\<rparr>"
      then obtain i ex' where i: "i < length sales"
        and ex: "ex = ex' @ [OutSaleDeleted (fst (sales ! i))]"
        and ex': "set ex' \<subseteq> {ErrDeleteInvalidNumber}"
        and oc: "outcome (delete_sales_record d ins) = Inr ()"
        and st: "store (delete_sales_record d ins) =
             d\<lparr>sale_tbl := Some (filter (\<lambda>s. sid s \<noteq> fst (sales ! i)) ss)\<rparr>"
        by blast
      have "\<forall>k. OutSaleDeleted k \<in> set (printed (delete_sales_record d ins))
                 \<longrightarrow> k = fst (sales ! i)"
        using pr ex ex' print_sales_list_no_result(2) by auto
      moreover have "OutCancelDelete \<notin> set (printed (delete_sales_record d ins))"
        using pr ex ex' print_sales_list_no_result(4) by auto
      ultimately show ?thesis using Inr i oc st by blast
    qed
  qed
qed

text \<open>
  The entries the prompt loop rejects (not a number, or a number outside 1 to the length
  of the menu) each print the error line and leave everything else as it was; a deletion
  that is announced comes from the first entry that is not rejected.
\<close>

lemma delete_choice_skip:
  assumes "\<forall>c \<in> set pre. c \<noteq> [] \<and>
             (py_int c = None \<or> (\<exists>m. py_int c = Some m \<and> (m < 1 \<or> int (length sales) < m)))"
  shows "delete_choice d sales (pre @ ins) outs =
         delete_choice d sales ins (outs @ replicate (length pre) ErrDeleteInvalidNumber)"
  using assms
proof (induction pre arbitrary: outs)
  case Nil
  then show ?case by simp
next
  case (Cons c pre)
  have step: "delete_choice d sales (c # pre @ ins) outs =
        delete_choice d sales (pre @ ins) (outs @ [ErrDeleteInvalidNumber])"
    using Cons.prems by auto
  have "delete_choice d sales (pre @ ins) (outs @ [ErrDeleteInvalidNumber]) =
        delete_choice d sales ins
          ((outs @ [ErrDeleteInvalidNumber]) @ replicate (length pre) ErrDeleteInvalidNumber)"
    using Cons.prems by (intro Cons.IH) simp
  with step show ?case by (simp add: replicate_app_Cons_same)
qed

lemma delete_choice_announce:
  assumes "OutSaleDeleted k \<in> set (printed (delete_choice d sales ins outs))"
    and "OutSaleDeleted k \<notin> set outs"
  shows "\<exists>pre choice n rest. ins = pre @ choice # rest \<and>
      (\<forall>c \<in> set pre. c \<noteq> [] \<and>
         (py_int c = None \<or> (\<exists>m. py_int c = Some m \<and> (m < 1 \<or> int (length sales) < m)))) \<and>
      py_int choice = Some n \<and> 1 \<le> n \<and> n \<le> int (length sales) \<and>
      fst (sales ! nat (n - 1)) = k"
  using assms
proof (induction d sales ins outs rule: delete_choice.induct)
  case (1 d sales outs)
  then show ?case by simp
next
  case (2 d sales choice ins outs)
  show ?case
  proof (cases "choice = []")
    case True
    with "2.prems" show ?thesis by simp
  next
    case False
    note c = this
    show ?thesis
    proof (cases "py_int choice")
      case None
      have eq: "delete_choice d sales (choice # ins) outs
          = delete_choice d sales ins (outs @ [ErrDeleteInvalidNumber])"
        using c None by simp
      from "2.IH"(1) [OF c None] "2.prems" eq
      obtain pre ch n rest where d: "ins = pre @ ch # rest"
        and r: "\<forall>c \<in> set pre. c \<noteq> [] \<and>
         (py_int c = None \<or> (\<exists>m. py_int c = Some m \<and> (m < 1 \<or> int (length sales) < m)))"
        and p: "py_int ch = Some n" "1 \<le> n" "n \<le> int (length sales)"
          "fst (sales ! nat (n - 1)) = k"
        by auto
      show ?thesis
        apply (rule exI [of _ "choice # pre"], rule exI [of _ ch], rule exI [of _ n],
            rule exI [of _ rest])
        using d r p c None by simp
    next
      case (Some n)
      show ?thesis
      proof (cases "n < 1 \<or> n > int (length sales)")
        case True
        have eq: "delete_choice d sales (choice # ins) outs
          = delete_choice d sales ins (outs @ [ErrDeleteInvalidNumber])"
          using c Some True by simp
        from "2.IH"(2) [OF c Some True] "2.prems" eq
        obtain pre ch n' rest where d: "ins = pre @ ch # rest"
          and r: "\<forall>c \<in> set pre. c \<noteq> [] \<and>
           (py_int c = None \<or> (\<exists>m. py_int c = Some m \<and> (m < 1 \<or> int (length sales) < m)))"
          and p: "py_int ch = Some n'" "1 \<le> n'" "n' \<le> int (length sales)"
            "fst (sales ! nat (n' - 1)) = k"
          by auto
        show ?thesis
          apply (rule exI [of _ "choice # pre"], rule exI [of _ ch], rule exI [of _ n'],
              rule exI [of _ rest])
          using d r p c Some True by auto
      next
        case False
        with "2.prems" c Some have "fst (sales ! nat (n - 1)) = k"
          by (auto simp: Let_def split: sum.splits)
        with False Some show ?thesis
          by (intro exI [of _ "[]"] exI [of _ choice] exI [of _ n] exI [of _ ins]) simp
      qed
    qed
  qed
qed

text \<open>
  C4, as the specification states it: every successful DeleteSale removes exactly the
  selected sale row, the ledger listing (the sale rows joined with member and book) gets
  shorter by exactly one, and no member or book row is modified. The part on the ledger
  listing fails when the book of the sale is not in the book table, which the schema
  allows (no foreign key is declared): with book B002 gone, entry 2 of the menu (sale
  joined with member only) is sale 2; the deletion succeeds and removes that row, and the
  ledger listing has the same three rows before and after.
\<close>

theorem C4_counterexample:
  "keys_unique orphaned \<and>
   delete_sales_record orphaned [''2''] =
     \<lparr>outcome = Inr (),
      store = orphaned\<lparr>sale_tbl := Some
        [\<lparr>sid = 1, sdate = ''2024-01-15'', sale_mid = ''M001'', sale_bid = ''B001'',
          sqty = 2, sdiscount = 100, stotal = 1100\<rparr>,
         \<lparr>sid = 3, sdate = ''2024-01-17'', sale_mid = ''M001'', sale_bid = ''B003'',
          sqty = 3, sdiscount = 200, stotal = 3400\<rparr>,
         \<lparr>sid = 4, sdate = ''2024-01-18'', sale_mid = ''M003'', sale_bid = ''B001'',
          sqty = 1, sdiscount = 0, stotal = 600\<rparr>]\<rparr>,
      printed = [OutListHeader, OutListRow 1 1 ''Alice'' ''2024-01-15'',
                 OutListRow 2 2 ''Bob'' ''2024-01-16'', OutListRow 3 3 ''Alice'' ''2024-01-17'',
                 OutListRow 4 4 ''Cathy'' ''2024-01-18'', OutListFooter, OutSaleDeleted 2],
      unread = []\<rparr> \<and>
   report_rows orphaned = Inr
     [(1, ''2024-01-15'', ''Alice'', ''Python Programming'', 600, 2, 100, 1100),
      (3, ''2024-01-17'', ''Alice'', ''Machine Learning Guide'', 1200, 3, 200, 3400),
      (4, ''2024-01-18'', ''Cathy'', ''Python Programming'', 600, 1, 0, 600)] \<and>
   report_rows (store (delete_sales_record orphaned [''2''])) = Inr
     [(1, ''2024-01-15'', ''Alice'', ''Python Programming'', 600, 2, 100, 1100),
      (3, ''2024-01-17'', ''Alice'', ''Machine Learning Guide'', 1200, 3, 200, 3400),
      (4, ''2024-01-18'', ''Cathy'', ''Python Programming'', 600, 1, 0, 600)]"
proof -
  have k: "keys_unique orphaned"
    by (simp add: keys_unique_def orphaned_def seed_eval)
  have p: "py_int ''2'' = Some 2" by (simp add: py_int_eval)
  have r: "delete_sales_record orphaned [''2''] =
     \<lparr>outcome = Inr (),
      store = orphaned\<lparr>sale_tbl := Some
        [\<lparr>sid = 1, sdate = ''2024-01-15'', sale_mid = ''M001'', sale_bid = ''B001'',
          sqty = 2, sdiscount = 100, stotal = 1100\<rparr>,
         \<lparr>sid = 3, sdate = ''2024-01-17'', sale_mid = ''M001'', sale_bid = ''B003'',
          sqty = 3, sdiscount = 200, stotal = 3400\<rparr>,
         \<lparr>sid = 4, sdate = ''2024-01-18'', sale_mid = ''M003'', sale_bid = ''B001'',
          sqty = 1, sdiscount = 0, stotal = 600\<rparr>]\<rparr>,
      printed = [OutListHeader, OutListRow 1 1 ''Alice'' ''2024-01-15'',
                 OutListRow 2 2 ''Bob'' ''2024-01-16'', OutListRow 3 3 ''Alice'' ''2024-01-17'',
                 OutListRow 4 4 ''Cathy'' ''2024-01-18'', OutListFooter, OutSaleDeleted 2],
      unread = []\<rparr>"
    using p
    by (simp add: delete_sales_record_def list_sales_orphaned delete_sale_def orphaned_tables
        seed_sale_rows_def print_sales_list_def upt_rec)
  have b: "report_rows orphaned = Inr
     [(1, ''2024-01-15'', ''Alice'', ''Python Programming'', 600, 2, 100, 1100),
      (3, ''2024-01-17'', ''Alice'', ''Machine Learning Guide'', 1200, 3, 200, 3400),
      (4, ''2024-01-18'', ''Cathy'', ''Python Programming'', 600, 1, 0, 600)]"
    by (simp add: report_rows_def orphaned_def seed_eval)
  have a: "report_rows (orphaned\<lparr>sale_tbl := Some
        [\<lparr>sid = 1, sdate = ''2024-01-15'', sale_mid = ''M001'', sale_bid = ''B001'',
          sqty = 2, sdiscount = 100, stotal = 1100\<rparr>,
         \<lparr>sid = 3, sdate = ''2024-01-17'', sale_mid = ''M001'', sale_bid = ''B003'',
          sqty = 3, sdiscount = 200, stotal = 3400\<rparr>,
         \<lparr>sid = 4, sdate = ''2024-01-18'', sale_mid = ''M003'', sale_bid = ''B001'',
          sqty = 1, sdiscount = 0, stotal = 600\<rparr>]\<rparr>) = Inr
     [(1, ''2024-01-15'', ''Alice'', ''Python Programming'', 600, 2, 100, 1100),
      (3, ''2024-01-17'', ''Alice'', ''Machine Learning Guide'', 1200, 3, 200, 3400),
      (4, ''2024-01-18'', ''Cathy'', ''Python Programming'', 600, 1, 0, 600)]"
    by (simp add: report_rows_def orphaned_def seed_eval)
  from k r b a show ?thesis by (simp only: run.simps simp_thms)
qed

text \<open>
  C4, amended: on a database whose primary keys are unique, entry \<open>n\<close> of the menu, typed
  after any number of rejected entries, deletes exactly the sale row \<open>s\<close> shown at position
  \<open>n\<close> of the menu: the function returns normally, having printed the menu, one error line
  per rejected entry and the deletion of \<open>sid s\<close>; the sale table is the old one without
  \<open>s\<close>, one row shorter, every other row in place and unchanged; the member table and the
  book table are as before, so the stock of the book of \<open>s\<close> is not given back. The menu
  listing gets shorter by exactly one; the ledger listing gets shorter by one exactly when
  the book of \<open>s\<close> is in the book table, and keeps its length otherwise. Conversely, every
  run that announces the deletion of sale \<open>k\<close> read rejected entries and then an entry \<open>n\<close>
  between 1 and the length of the menu, and \<open>k\<close> is the \<^verbatim>\<open>sid\<close> at position \<open>n\<close>.
\<close>

theorem C4_delete_selected:
  assumes "keys_unique d" and "sale_tbl d = Some ss" and "list_sales d = Inr sales"
  shows
   "((\<forall>c \<in> set pre. c \<noteq> [] \<and>
        (py_int c = None \<or> (\<exists>m. py_int c = Some m \<and> (m < 1 \<or> int (length sales) < m)))) \<and>
     py_int choice = Some n \<and> 1 \<le> n \<and> n \<le> int (length sales) \<and>
     fst (sales ! nat (n - 1)) = sid s \<and> s \<in> set ss \<longrightarrow>
       delete_sales_record d (pre @ choice # rest) =
         \<lparr>outcome = Inr (), store = d\<lparr>sale_tbl := Some (remove1 s ss)\<rparr>,
          printed = print_sales_list sales @ replicate (length pre) ErrDeleteInvalidNumber @
                    [OutSaleDeleted (sid s)],
          unread = rest\<rparr> \<and>
       Suc (length (remove1 s ss)) = length ss \<and>
       member_tbl (d\<lparr>sale_tbl := Some (remove1 s ss)\<rparr>) = member_tbl d \<and>
       book_tbl (d\<lparr>sale_tbl := Some (remove1 s ss)\<rparr>) = book_tbl d \<and>
       (\<exists>sales'. list_sales (d\<lparr>sale_tbl := Some (remove1 s ss)\<rparr>) = Inr sales' \<and>
                 Suc (length sales') = length sales) \<and>
       (book_tbl d = Some bs \<longrightarrow>
          (\<exists>rows rows'. report_rows d = Inr rows \<and>
             report_rows (d\<lparr>sale_tbl := Some (remove1 s ss)\<rparr>) = Inr rows' \<and>
             length rows = (if sale_bid s \<in> bid ` set bs then Suc (length rows')
                            else length rows')))) \<and>
    (OutSaleDeleted k \<in> set (printed (delete_sales_record d ins)) \<longrightarrow>
       (\<exists>pre choice n rest. ins = pre @ choice # rest \<and>
          (\<forall>c \<in> set pre. c \<noteq> [] \<and>
             (py_int c = None \<or>
              (\<exists>m. py_int c = Some m \<and> (m < 1 \<or> int (length sales) < m)))) \<and>
          py_int choice = Some n \<and> 1 \<le> n \<and> n \<le> int (length sales) \<and>
          fst (sales ! nat (n - 1)) = k))"
proof (intro conjI impI)
  assume a: "(\<forall>c \<in> set pre. c \<noteq> [] \<and>
        (py_int c = None \<or> (\<exists>m. py_int c = Some m \<and> (m < 1 \<or> int (length sales) < m)))) \<and>
     py_int choice = Some n \<and> 1 \<le> n \<and> n \<le> int (length sales) \<and>
     fst (sales ! nat (n - 1)) = sid s \<and> s \<in> set ss"
  then have rej: "\<forall>c \<in> set pre. c \<noteq> [] \<and>
        (py_int c = None \<or> (\<exists>m. py_int c = Some m \<and> (m < 1 \<or> int (length sales) < m)))"
    and p: "py_int choice = Some n" and n: "1 \<le> n" "n \<le> int (length sales)"
    and k: "fst (sales ! nat (n - 1)) = sid s" and s: "s \<in> set ss"
    by simp_all
  from list_sales_tables [OF assms(3)] assms(2) obtain ms where ms: "member_tbl d = Some ms"
    by auto
  from assms(1,2) ms have ds: "distinct (map sid ss)" and dm: "distinct (map mid ms)"
    by (simp_all add: keys_unique_def)
  from n have ne: "sales \<noteq> []" and i: "nat (n - 1) < length sales" by auto
  from p have c: "choice \<noteq> []" using py_int_Nil by auto
  have f: "filter (\<lambda>y. sid y \<noteq> sid s) ss = remove1 s ss"
    using ds s by (rule filter_key_remove1)
  have "delete_sales_record d (pre @ choice # rest) =
      delete_choice d sales (pre @ choice # rest) (print_sales_list sales)"
    using assms(3) ne by (simp add: delete_sales_record_def)
  also have "\<dots> = delete_choice d sales (choice # rest)
      (print_sales_list sales @ replicate (length pre) ErrDeleteInvalidNumber)"
    using rej by (rule delete_choice_skip)
  also have "\<dots> = \<lparr>outcome = Inr (), store = d\<lparr>sale_tbl := Some (remove1 s ss)\<rparr>,
          printed = print_sales_list sales @ replicate (length pre) ErrDeleteInvalidNumber @
                    [OutSaleDeleted (sid s)],
          unread = rest\<rparr>"
    using c p n k f assms(2) by (simp add: delete_sale_def Let_def)
  finally show "delete_sales_record d (pre @ choice # rest) =
         \<lparr>outcome = Inr (), store = d\<lparr>sale_tbl := Some (remove1 s ss)\<rparr>,
          printed = print_sales_list sales @ replicate (length pre) ErrDeleteInvalidNumber @
                    [OutSaleDeleted (sid s)],
          unread = rest\<rparr>" .
  show "Suc (length (remove1 s ss)) = length ss"
    using s by (simp add: length_remove1) (cases ss, auto)
  show "member_tbl (d\<lparr>sale_tbl := Some (remove1 s ss)\<rparr>) = member_tbl d"
    and "book_tbl (d\<lparr>sale_tbl := Some (remove1 s ss)\<rparr>) = book_tbl d"
    by simp_all
  from list_sales_row_unique [OF assms(3,2) ms ds i k s] obtain m where
    m: "m \<in> set ms" and sm: "sale_mid s = mid m" by blast
  from list_sales_length_remove1 [OF assms(2) ms dm s m sm] assms(3)
  show "\<exists>sales'. list_sales (d\<lparr>sale_tbl := Some (remove1 s ss)\<rparr>) = Inr sales' \<and>
                 Suc (length sales') = length sales" by auto
  {
    assume bt: "book_tbl d = Some bs"
    with assms(1) have dbk: "distinct (map bid bs)" by (simp add: keys_unique_def)
    show "\<exists>rows rows'. report_rows d = Inr rows \<and>
             report_rows (d\<lparr>sale_tbl := Some (remove1 s ss)\<rparr>) = Inr rows' \<and>
             length rows = (if sale_bid s \<in> bid ` set bs then Suc (length rows')
                            else length rows')"
    proof (cases "sale_bid s \<in> bid ` set bs")
      case True
      then obtain b where b: "b \<in> set bs" and sb: "sale_bid s = bid b" by auto
      from report_rows_length_remove1 [OF assms(2) ms bt dm dbk s m sm b sb] True
      show ?thesis by auto
    next
      case False
      from report_rows_length_orphan [OF assms(2) ms bt s False] False
      show ?thesis by auto
    qed
  }
next
  assume a: "OutSaleDeleted k \<in> set (printed (delete_sales_record d ins))"
  have ne: "sales \<noteq> []"
  proof
    assume "sales = []"
    with assms(3) a show False by (simp add: delete_sales_record_def)
  qed
  with assms(3) have eq: "delete_sales_record d ins
      = delete_choice d sales ins (print_sales_list sales)"
    by (simp add: delete_sales_record_def)
  from a show "\<exists>pre choice n rest. ins = pre @ choice # rest \<and>
          (\<forall>c \<in> set pre. c \<noteq> [] \<and>
             (py_int c = None \<or>
              (\<exists>m. py_int c = Some m \<and> (m < 1 \<or> int (length sales) < m)))) \<and>
          py_int choice = Some n \<and> 1 \<le> n \<and> n \<le> int (length sales) \<and>
          fst (sales ! nat (n - 1)) = k"
    unfolding eq by (rule delete_choice_announce) (rule print_sales_list_no_result(2))
qed

text \<open>
  On the seed data, after the rejected entries \<^verbatim>\<open>x\<close> and \<^verbatim>\<open>9\<close>, entry 2 of the menu: sale 2
  goes, sales 1, 3 and 4 stay, and the book table is the seed one (B002 keeps its stock of
  30).
\<close>

theorem C4_delete_selected_witness:
  "keys_unique seeded \<and>
   py_int ''x'' = None \<and> py_int ''9'' = Some 9 \<and> py_int ''2'' = Some 2 \<and>
   delete_sales_record seeded [''x'', ''9'', ''2''] =
     \<lparr>outcome = Inr (),
      store = seeded\<lparr>sale_tbl := Some
        [\<lparr>sid = 1, sdate = ''2024-01-15'', sale_mid = ''M001'', sale_bid = ''B001'',
          sqty = 2, sdiscount = 100, stotal = 1100\<rparr>,
         \<lparr>sid = 3, sdate = ''2024-01-17'', sale_mid = ''M001'', sale_bid = ''B003'',
          sqty = 3, sdiscount = 200, stotal = 3400\<rparr>,
         \<lparr>sid = 4, sdate = ''2024-01-18'', sale_mid = ''M003'', sale_bid = ''B001'',
          sqty = 1, sdiscount = 0, stotal = 600\<rparr>]\<rparr>,
      printed = [OutListHeader, OutListRow 1 1 ''Alice'' ''2024-01-15'',
                 OutListRow 2 2 ''Bob'' ''2024-01-16'', OutListRow 3 3 ''Alice'' ''2024-01-17'',
                 OutListRow 4 4 ''Cathy'' ''2024-01-18'', OutListFooter,
                 ErrDeleteInvalidNumber, ErrDeleteInvalidNumber, OutSaleDeleted 2],
      unread = []\<rparr> \<and>
   book_tbl (store (delete_sales_record seeded [''x'', ''9'', ''2''])) = Some seed_books"
proof -
  let ?sales = "[(1, ''2024-01-15'', ''Alice''), (2, ''2024-01-16'', ''Bob''),
       (3, ''2024-01-17'', ''Alice''), (4, ''2024-01-18'', ''Cathy'')] :: menu_row list"
  let ?s = "\<lparr>sid = 2, sdate = ''2024-01-16'', sale_mid = ''M002'', sale_bid = ''B002'',
       sqty = 1, sdiscount = 50, stotal = 750\<rparr>"
  have p: "py_int ''x'' = None" "py_int ''9'' = Some 9" "py_int ''2'' = Some 2"
    by (simp_all add: py_int_eval)
  have h: "(\<forall>c \<in> set [''x'', ''9'']. c \<noteq> [] \<and>
        (py_int c = None \<or> (\<exists>m. py_int c = Some m \<and> (m < 1 \<or> int (length ?sales) < m)))) \<and>
     py_int ''2'' = Some 2 \<and> 1 \<le> (2::int) \<and> 2 \<le> int (length ?sales) \<and>
     fst (?sales ! nat (2 - 1)) = sid ?s \<and> ?s \<in> set seed_sale_rows"
    using p by (simp add: seed_sale_rows_def)
  from C4_delete_selected [OF keys_unique_seeded seeded_tables(3) list_sales_seeded,
      where pre = "[''x'', ''9'']" and choice = "''2''" and n = 2 and s = ?s and rest = "[]"] h
  have r: "delete_sales_record seeded ([''x'', ''9''] @ ''2'' # []) =
         \<lparr>outcome = Inr (), store = seeded\<lparr>sale_tbl := Some (remove1 ?s seed_sale_rows)\<rparr>,
          printed = print_sales_list ?sales @
                    replicate (length [''x'', ''9'']) ErrDeleteInvalidNumber @
                    [OutSaleDeleted (sid ?s)],
          unread = []\<rparr>"
    by blast
  have e: "remove1 ?s seed_sale_rows =
        [\<lparr>sid = 1, sdate = ''2024-01-15'', sale_mid = ''M001'', sale_bid = ''B001'',
          sqty = 2, sdiscount = 100, stotal = 1100\<rparr>,
         \<lparr>sid = 3, sdate = ''2024-01-17'', sale_mid = ''M001'', sale_bid = ''B003'',
          sqty = 3, sdiscount = 200, stotal = 3400\<rparr>,
         \<lparr>sid = 4, sdate = ''2024-01-18'', sale_mid = ''M003'', sale_bid = ''B001'',
          sqty = 1, sdiscount = 0, stotal = 600\<rparr>]"
    by (simp add: seed_sale_rows_def)
  have l: "print_sales_list ?sales = [OutListHeader, OutListRow 1 1 ''Alice'' ''2024-01-15'',
                 OutListRow 2 2 ''Bob'' ''2024-01-16'', OutListRow 3 3 ''Alice'' ''2024-01-17'',
                 OutListRow 4 4 ''Cathy'' ''2024-01-18'', OutListFooter]"
    by (simp add: print_sales_list_def upt_rec)
  from r e l p keys_unique_seeded show ?thesis
    by (simp add: seeded_tables numeral_2_eq_2)
qed

section \<open>Cancelling an update or a deletion\<close>

text \<open>
  C10: in \<^verbatim>\<open>update_sales_record\<close> and in \<^verbatim>\<open>delete_sales_record\<close> the empty line at the
  selection prompt cancels before any write: the database the function leaves is the one
  it found, member, book and sale table alike. This holds at the first prompt and at any
  later one, after rejected entries. (The function prints the cancel line, closes the
  connection and returns from inside the \<^verbatim>\<open>with\<close> block, whose closing commit then raises
  \<^verbatim>\<open>ProgrammingError\<close>; no statement has written by then.)
\<close>

theorem C10_cancel:
  "(list_sales d = Inr sales \<and> sales \<noteq> [] \<longrightarrow>
      update_sales_record d ([] # rest) =
        \<lparr>outcome = Inl ProgrammingError, store = d,
         printed = print_sales_list sales @ [OutCancelUpdate], unread = rest\<rparr> \<and>
      delete_sales_record d ([] # rest) =
        \<lparr>outcome = Inl ProgrammingError, store = d,
         printed = print_sales_list sales @ [OutCancelDelete], unread = rest\<rparr>) \<and>
   (OutCancelUpdate \<in> set (printed (update_sales_record d ins))
      \<longrightarrow> store (update_sales_record d ins) = d) \<and>
   (OutCancelDelete \<in> set (printed (delete_sales_record d ins))
      \<longrightarrow> store (delete_sales_record d ins) = d)"
proof (intro conjI impI)
  assume "list_sales d = Inr sales \<and> sales \<noteq> []"
  then show "update_sales_record d ([] # rest) =
        \<lparr>outcome = Inl ProgrammingError, store = d,
         printed = print_sales_list sales @ [OutCancelUpdate], unread = rest\<rparr>"
    and "delete_sales_record d ([] # rest) =
        \<lparr>outcome = Inl ProgrammingError, store = d,
         printed = print_sales_list sales @ [OutCancelDelete], unread = rest\<rparr>"
    by (simp_all add: update_sales_record_def delete_sales_record_def)
next
  assume a: "OutCancelUpdate \<in> set (printed (update_sales_record d ins))"
  show "store (update_sales_record d ins) = d"
  proof (cases "sale_tbl d")
    case None
    then show ?thesis by (simp add: update_sales_record_def list_sales_def)
  next
    case (Some ss)
    from update_sales_record_cases [OF Some, of ins] a show ?thesis by blast
  qed
next
  assume a: "OutCancelDelete \<in> set (printed (delete_sales_record d ins))"
  show "store (delete_sales_record d ins) = d"
  proof (cases "sale_tbl d")
    case None
    then show ?thesis by (simp add: delete_sales_record_def list_sales_def)
  next
    case (Some ss)
    from delete_sales_record_cases [OF Some, of ins] a show ?thesis by blast
  qed
qed

theorem C10_cancel_witness:
  "store (update_sales_record seeded ['''']) = seeded \<and>
   store (delete_sales_record seeded ['''']) = seeded \<and>
   OutCancelDelete \<in> set (printed (delete_sales_record seeded [''x'', ''''])) \<and>
   store (delete_sales_record seeded [''x'', '''']) = seeded"
proof -
  let ?sales = "[(1, ''2024-01-15'', ''Alice''), (2, ''2024-01-16'', ''Bob''),
       (3, ''2024-01-17'', ''Alice''), (4, ''2024-01-18'', ''Cathy'')] :: menu_row list"
  have ne: "?sales \<noteq> []" by simp
  have p: "OutCancelDelete \<in> set (printed (delete_sales_record seeded [''x'', '''']))"
  proof -
    have "py_int ''x'' = None" by (simp add: py_int_eval)
    then show ?thesis by (simp add: delete_sales_record_def list_sales_seeded)
  qed
   from C10_cancel [of seeded ?sales "[]" "[''x'', '''']"] list_sales_seeded ne p
  show ?thesis by simp
qed

section \<open>Properties of the listings\<close>

text \<open>
  What the menu prints: the header, the rows numbered from 1 in the order of the listing,
  and the footer. Update and delete print it first whenever the listing is not empty, and
  print their "no records" line and return when it is.
\<close>

lemma print_sales_list_rows:
  "print_sales_list sales =
     OutListHeader #
     map (\<lambda>i. OutListRow (Suc i) (fst (sales ! i)) (snd (snd (sales ! i))) (fst (snd (sales ! i))))
         [0 ..< length sales] @
     [OutListFooter]"
proof -
  have "map (\<lambda>(i, sid0, sdate0, mname0). OutListRow i sid0 mname0 sdate0)
          (zip [1 ..< Suc (length sales)] sales) =
        map (\<lambda>i. OutListRow (Suc i) (fst (sales ! i)) (snd (snd (sales ! i)))
                   (fst (snd (sales ! i)))) [0 ..< length sales]"
    by (rule nth_equalityI) (simp_all add: case_prod_beta del: upt_Suc)
  then show ?thesis by (simp add: print_sales_list_def del: upt_Suc)
qed

lemma update_sales_record_menu_first:
  assumes "list_sales d = Inr sales" and "sales \<noteq> []"
  shows "\<exists>ex. printed (update_sales_record d ins) = print_sales_list sales @ ex"
proof -
  obtain r1 outs1 ins1 where
    uc: "update_choice sales ins (print_sales_list sales) = (r1, outs1, ins1)"
    by (cases "update_choice sales ins (print_sales_list sales)") auto
  from update_choice_printed [OF uc] obtain ex1 where
    o1: "outs1 = print_sales_list sales @ ex1" by blast
  show ?thesis
  proof (cases r1)
    case (Inl e)
    with assms uc o1 show ?thesis by (simp add: update_sales_record_def)
  next
    case (Inr c)
    show ?thesis
    proof (cases c)
      case None
      with Inr assms uc o1 show ?thesis by (simp add: update_sales_record_def)
    next
      case (Some k)
      note ch = Inr Some
      show ?thesis
      proof (cases "sale_book_data d k")
        case (Inl e)
        with ch assms uc o1 show ?thesis by (simp add: update_sales_record_def)
      next
        case (Inr bd)
        note sbd = this
        show ?thesis
        proof (cases bd)
          case None
          with sbd ch assms uc o1 show ?thesis by (simp add: update_sales_record_def)
        next
          case (Some trip)
          obtain price qty old where trip: "trip = (price, qty, old)" by (cases trip) auto
          obtain r2 outs2 ins2 where
            ud: "update_discount ins1 (outs1 @ [OutCurrentDiscount old]) = (r2, outs2, ins2)"
            by (cases "update_discount ins1 (outs1 @ [OutCurrentDiscount old])") auto
          from update_discount_printed [OF ud] o1 obtain ex2 where
            o2: "outs2 = print_sales_list sales @ ex2" by auto
          show ?thesis
          proof (cases r2)
            case (Inl e)
            with ud o2 Some trip sbd ch assms uc show ?thesis
              by (simp add: update_sales_record_def)
          next
            case (Inr nd)
            with ud o2 Some trip sbd ch assms uc show ?thesis
              by (cases "update_sale d nd (price * qty - nd) k")
                 (simp_all add: update_sales_record_def Let_def)
          qed
        qed
      qed
    qed
  qed
qed

lemma delete_sales_record_menu_first:
  assumes "list_sales d = Inr sales" and "sales \<noteq> []" and "sale_tbl d = Some ss"
  shows "\<exists>ex. printed (delete_sales_record d ins) = print_sales_list sales @ ex"
  using delete_choice_cases [OF assms(3), of sales ins "print_sales_list sales"] assms(1,2)
  by (auto simp: delete_sales_record_def)

lemma menus_no_sales:
  assumes "list_sales d = Inr []"
  shows "update_sales_record d ins =
           \<lparr>outcome = Inr (), store = d, printed = [OutNoSales], unread = ins\<rparr>"
    and "delete_sales_record d ins =
           \<lparr>outcome = Inr (), store = d, printed = [OutNoSales], unread = ins\<rparr>"
  using assms by (simp_all add: update_sales_record_def delete_sales_record_def)

text \<open>
  C9: on a database with unique primary keys and its three tables, the listing of the
  report is the join of sale, member and book (each joined row once) in strictly ascending
  order of \<^verbatim>\<open>sid\<close>, and the listing of the selection menus of update and delete is the join
  of sale and member in strictly ascending order of \<^verbatim>\<open>sid\<close>. The report returns normally
  with the database as it was and prints, for a listing that is not empty, the header and
  one block per row in that order, and the "no records" line for an empty one. Update and
  delete print the menu of their listing first, its rows numbered from 1 in that order;
  for an empty listing they print their "no records" line and return normally with the
  database as it was. On an empty sale table both listings are empty.
\<close>

theorem C9_listing:
  assumes "keys_unique d" and "sale_tbl d = Some ss" and "member_tbl d = Some ms"
    and "book_tbl d = Some bs"
  shows "\<exists>rows sales.
     report_rows d = Inr rows \<and>
     mset rows = mset
       [(sid s, sdate s, mname m, btitle b, bprice b, sqty s, sdiscount s, stotal s).
          s \<leftarrow> ss, m \<leftarrow> ms, sale_mid s = mid m, b \<leftarrow> bs, sale_bid s = bid b] \<and>
     sorted_wrt (<) (map fst rows) \<and>
     show_sales_report d ins =
       \<lparr>outcome = Inr (), store = d,
        printed = (if rows = [] then [OutNoSalesReport]
                   else OutReportHeader #
                     map (\<lambda>(sid0, sdate0, mname0, title, price, qty, disc, tot).
                            OutReportSale sid0 sdate0 mname0 title price qty disc
                              (price * qty - disc) tot) rows),
        unread = ins\<rparr> \<and>
     list_sales d = Inr sales \<and>
     mset sales = mset [(sid s, sdate s, mname m). s \<leftarrow> ss, m \<leftarrow> ms, sale_mid s = mid m] \<and>
     sorted_wrt (<) (map fst sales) \<and>
     print_sales_list sales =
       OutListHeader #
       map (\<lambda>i. OutListRow (Suc i) (fst (sales ! i)) (snd (snd (sales ! i)))
                  (fst (snd (sales ! i)))) [0 ..< length sales] @
       [OutListFooter] \<and>
     (if sales = []
      then update_sales_record d ins =
             \<lparr>outcome = Inr (), store = d, printed = [OutNoSales], unread = ins\<rparr> \<and>
           delete_sales_record d ins =
             \<lparr>outcome = Inr (), store = d, printed = [OutNoSales], unread = ins\<rparr>
      else (\<exists>ex. printed (update_sales_record d ins) = print_sales_list sales @ ex) \<and>
           (\<exists>ex. printed (delete_sales_record d ins) = print_sales_list sales @ ex)) \<and>
     (ss = [] \<longrightarrow> rows = [] \<and> sales = [])"
proof -
  from assms have ds: "distinct (map sid ss)" and dm: "distinct (map mid ms)"
    and db: "distinct (map bid bs)"
    by (simp_all add: keys_unique_def)
  let ?j3 = "[(sid s, sdate s, mname m, btitle b, bprice b, sqty s, sdiscount s, stotal s).
          s \<leftarrow> ss, m \<leftarrow> ms, sale_mid s = mid m, b \<leftarrow> bs, sale_bid s = bid b]"
  let ?j2 = "[(sid s, sdate s, mname m). s \<leftarrow> ss, m \<leftarrow> ms, sale_mid s = mid m]"
  let ?rows = "sort_key fst ?j3"
  let ?sales = "sort_key fst ?j2"
  have r: "report_rows d = Inr ?rows" using assms(2,3,4) by (simp add: report_rows_def)
  have l: "list_sales d = Inr ?sales" using assms(2,3) by (simp add: list_sales_def)
  have k3: "distinct (map fst ?j3)"
    by (rule join_keys_distinct [OF ds]) (rule report_join_row [OF dm db])
  have k2: "distinct (map fst ?j2)"
    by (rule join_keys_distinct [OF ds]) (rule menu_join_row [OF dm])
  have m3: "mset ?rows = mset ?j3" and m2: "mset ?sales = mset ?j2"
    by (simp_all only: mset_sort)
  have s3: "sorted_wrt (<) (map fst ?rows)" using k3 by (rule sort_key_strict)
  have s2: "sorted_wrt (<) (map fst ?sales)" using k2 by (rule sort_key_strict)
  have rl: "report_line = (\<lambda>(sid0, sdate0, mname0, title, price, qty, disc, tot).
                            OutReportSale sid0 sdate0 mname0 title price qty disc
                              (price * qty - disc) tot)"
    by (auto simp: report_line_def fun_eq_iff)
  have rep: "show_sales_report d ins =
       \<lparr>outcome = Inr (), store = d,
        printed = (if ?rows = [] then [OutNoSalesReport]
                   else OutReportHeader #
                     map (\<lambda>(sid0, sdate0, mname0, title, price, qty, disc, tot).
                            OutReportSale sid0 sdate0 mname0 title price qty disc
                              (price * qty - disc) tot) ?rows),
        unread = ins\<rparr>"
    by (simp add: show_sales_report_def r rl del: sort_key_simps)
  have menus: "if ?sales = []
      then update_sales_record d ins =
             \<lparr>outcome = Inr (), store = d, printed = [OutNoSales], unread = ins\<rparr> \<and>
           delete_sales_record d ins =
             \<lparr>outcome = Inr (), store = d, printed = [OutNoSales], unread = ins\<rparr>
      else (\<exists>ex. printed (update_sales_record d ins) = print_sales_list ?sales @ ex) \<and>
           (\<exists>ex. printed (delete_sales_record d ins) = print_sales_list ?sales @ ex)"
  proof (cases "?sales = []")
    case True
    from l have l0: "list_sales d = Inr []" unfolding True .
    from menus_no_sales [OF l0, of ins] True show ?thesis by (simp only: if_True simp_thms)
  next
    case False
    from update_sales_record_menu_first [OF l False, of ins]
      delete_sales_record_menu_first [OF l False assms(2), of ins] False
    show ?thesis by (simp only: if_False simp_thms)
  qed
  have e: "ss = [] \<longrightarrow> ?rows = [] \<and> ?sales = []" by simp
  note pr = print_sales_list_rows [of ?sales]
  show ?thesis
    apply (intro exI [of _ ?rows] exI [of _ ?sales] conjI)
             apply (fact r)
            apply (fact m3)
           apply (fact s3)
          apply (fact rep)
         apply (fact l)
        apply (fact m2)
       apply (fact s2)
      apply (fact pr)
     apply (fact menus)
    apply (fact e)
    done
qed

text \<open>
  The seed data: the report in the order 1 to 4; and the seed data with no sale left: the
  "no records" lines.
\<close>

theorem C9_listing_witness:
  "keys_unique seeded \<and> keys_unique no_sales \<and>
   show_sales_report seeded [] =
     \<lparr>outcome = Inr (), store = seeded,
      printed = [OutReportHeader,
        OutReportSale 1 ''2024-01-15'' ''Alice'' ''Python Programming'' 600 2 100 1100 1100,
        OutReportSale 2 ''2024-01-16'' ''Bob'' ''Data Science Basics'' 800 1 50 750 750,
        OutReportSale 3 ''2024-01-17'' ''Alice'' ''Machine Learning Guide'' 1200 3 200 3400 3400,
        OutReportSale 4 ''2024-01-18'' ''Cathy'' ''Python Programming'' 600 1 0 600 600],
      unread = []\<rparr> \<and>
   show_sales_report no_sales [] =
     \<lparr>outcome = Inr (), store = no_sales, printed = [OutNoSalesReport], unread = []\<rparr> \<and>
   update_sales_record no_sales [''1''] =
     \<lparr>outcome = Inr (), store = no_sales, printed = [OutNoSales], unread = [''1'']\<rparr> \<and>
   delete_sales_record no_sales [''1''] =
     \<lparr>outcome = Inr (), store = no_sales, printed = [OutNoSales], unread = [''1'']\<rparr>"
proof -
  have kn: "keys_unique no_sales"
    by (simp add: keys_unique_def no_sales_def seed_eval)
  have tn: "sale_tbl no_sales = Some []" "member_tbl no_sales = Some seed_members"
    "book_tbl no_sales = Some seed_books"
    by (simp_all add: no_sales_def seeded_def)
  from C9_listing [OF keys_unique_seeded seeded_tables(3,1,2), of "[]"] report_rows_seeded
  have a: "show_sales_report seeded [] =
     \<lparr>outcome = Inr (), store = seeded,
      printed = [OutReportHeader,
        OutReportSale 1 ''2024-01-15'' ''Alice'' ''Python Programming'' 600 2 100 1100 1100,
        OutReportSale 2 ''2024-01-16'' ''Bob'' ''Data Science Basics'' 800 1 50 750 750,
        OutReportSale 3 ''2024-01-17'' ''Alice'' ''Machine Learning Guide'' 1200 3 200 3400 3400,
        OutReportSale 4 ''2024-01-18'' ''Cathy'' ''Python Programming'' 600 1 0 600 600],
      unread = []\<rparr>"
    by auto
  from C9_listing [OF kn tn, of "[]"]
  have b: "show_sales_report no_sales [] =
     \<lparr>outcome = Inr (), store = no_sales, printed = [OutNoSalesReport], unread = []\<rparr>"
    by auto
  from C9_listing [OF kn tn, of "[''1'']"]
  have c: "update_sales_record no_sales [''1''] =
     \<lparr>outcome = Inr (), store = no_sales, printed = [OutNoSales], unread = [''1'']\<rparr> \<and>
   delete_sales_record no_sales [''1''] =
     \<lparr>outcome = Inr (), store = no_sales, printed = [OutNoSales], unread = [''1'']\<rparr>"
    by auto
  from keys_unique_seeded kn a b c show ?thesis by (simp only: simp_thms)
qed

section \<open>Properties of the bootstrap\<close>

text \<open>What the seeding statements do to the tables.\<close>

lemma insert_member_frame:
  "insert_member m d = Inr d' \<Longrightarrow>
   book_tbl d' = book_tbl d \<and> sale_tbl d' = sale_tbl d \<and> sale_seq d' = sale_seq d \<and>
   (\<exists>ms. member_tbl d = Some ms \<and> mid m \<notin> mid ` set ms \<and> member_tbl d' = Some (ms @ [m]))"
  by (auto simp: insert_member_def split: option.splits if_splits)

lemma insert_book_frame:
  "insert_book b d = Inr d' \<Longrightarrow>
   member_tbl d' = member_tbl d \<and> sale_tbl d' = sale_tbl d \<and> sale_seq d' = sale_seq d \<and>
   (\<exists>bs. book_tbl d = Some bs \<and> bid b \<notin> bid ` set bs \<and> book_tbl d' = Some (bs @ [b]))"
  by (auto simp: insert_book_def split: option.splits sum.splits if_splits)

lemma insert_sale_frame:
  "insert_sale d date m b qty discount tot = Inr d' \<Longrightarrow>
   member_tbl d' = member_tbl d \<and> book_tbl d' = book_tbl d \<and>
   (\<exists>ss. sale_tbl d = Some ss \<and>
      sale_tbl d' = Some (ss @ [\<lparr>sid = next_sid ss (sale_seq d), sdate = date, sale_mid = m,
                                 sale_bid = b, sqty = qty, sdiscount = discount, stotal = tot\<rparr>]))"
  by (auto simp: insert_sale_def Let_def split: option.splits sum.splits if_splits)

lemma executemany_insert_member:
  "executemany insert_member xs d = Inr d' \<Longrightarrow> member_tbl d = Some ms \<Longrightarrow>
   book_tbl d' = book_tbl d \<and> sale_tbl d' = sale_tbl d \<and> sale_seq d' = sale_seq d \<and>
   member_tbl d' = Some (ms @ xs) \<and> (distinct (map mid ms) \<longrightarrow> distinct (map mid (ms @ xs)))"
proof (induction xs arbitrary: d ms)
  case Nil
  then show ?case by simp
next
  case (Cons x xs)
  from Cons.prems(1) obtain d1 where d1: "insert_member x d = Inr d1"
    and rest: "executemany insert_member xs d1 = Inr d'"
    by (auto split: sum.splits)
  from insert_member_frame [OF d1] Cons.prems(2)
  have f: "book_tbl d1 = book_tbl d" "sale_tbl d1 = sale_tbl d" "sale_seq d1 = sale_seq d"
    "mid x \<notin> mid ` set ms" "member_tbl d1 = Some (ms @ [x])" by auto
  from Cons.IH [OF rest f(5)] f show ?case by auto
qed

lemma executemany_insert_book:
  "executemany insert_book xs d = Inr d' \<Longrightarrow> book_tbl d = Some bs \<Longrightarrow>
   member_tbl d' = member_tbl d \<and> sale_tbl d' = sale_tbl d \<and> sale_seq d' = sale_seq d \<and>
   book_tbl d' = Some (bs @ xs) \<and> (distinct (map bid bs) \<longrightarrow> distinct (map bid (bs @ xs)))"
proof (induction xs arbitrary: d bs)
  case Nil
  then show ?case by simp
next
  case (Cons x xs)
  from Cons.prems(1) obtain d1 where d1: "insert_book x d = Inr d1"
    and rest: "executemany insert_book xs d1 = Inr d'"
    by (auto split: sum.splits)
  from insert_book_frame [OF d1] Cons.prems(2)
  have f: "member_tbl d1 = member_tbl d" "sale_tbl d1 = sale_tbl d" "sale_seq d1 = sale_seq d"
    "bid x \<notin> bid ` set bs" "book_tbl d1 = Some (bs @ [x])" by auto
  from Cons.IH [OF rest f(5)] f show ?case by auto
qed

lemma executemany_insert_seed_sale:
  "executemany insert_seed_sale xs d = Inr d' \<Longrightarrow> sale_tbl d = Some ss \<Longrightarrow>
   member_tbl d' = member_tbl d \<and> book_tbl d' = book_tbl d \<and>
   (\<exists>ss'. sale_tbl d' = Some ss' \<and> (distinct (map sid ss) \<longrightarrow> distinct (map sid ss')))"
proof (induction xs arbitrary: d ss)
  case Nil
  then show ?case by simp
next
  case (Cons x xs)
  from Cons.prems(1) obtain d1 where d1: "insert_seed_sale x d = Inr d1"
    and rest: "executemany insert_seed_sale xs d1 = Inr d'"
    by (auto split: sum.splits)
  obtain date m b qty discount tot where x: "x = (date, m, b, qty, discount, tot)"
    by (cases x) auto
  let ?row = "\<lparr>sid = next_sid ss (sale_seq d), sdate = date, sale_mid = m,
                sale_bid = b, sqty = qty, sdiscount = discount, stotal = tot\<rparr>"
  from d1 x have "insert_sale d date m b qty discount tot = Inr d1"
    by (simp add: insert_seed_sale_def)
  from insert_sale_frame [OF this] Cons.prems(2)
  have f: "member_tbl d1 = member_tbl d" "book_tbl d1 = book_tbl d"
    "sale_tbl d1 = Some (ss @ [?row])" by auto
  have "distinct (map sid ss) \<longrightarrow> distinct (map sid (ss @ [?row]))"
    using next_sid_fresh [of _ ss "sale_seq d"] by fastforce
  with Cons.IH [OF rest f(3)] f show ?case by auto
qed

lemma create_tables_exist:
  "member_tbl (create_tables d) \<noteq> None" "book_tbl (create_tables d) \<noteq> None"
  "sale_tbl (create_tables d) \<noteq> None"
  by (simp_all add: create_tables_def)

text \<open>
  Whatever a run of \<^verbatim>\<open>init_db\<close> does, also one that ends in an exception, it leaves the
  three tables in place.
\<close>

lemma init_db_tables_exist:
  "member_tbl (store (init_db d ins)) \<noteq> None \<and> book_tbl (store (init_db d ins)) \<noteq> None \<and>
   sale_tbl (store (init_db d ins)) \<noteq> None"
proof (cases "table_exists d ''member'' \<and> table_exists d ''book'' \<and> table_exists d ''sale''")
  case True
  then show ?thesis by (simp add: init_db_def table_exists_def)
next
  case False
  let ?d0 = "create_tables d"
  obtain ms bs ss where t0: "member_tbl ?d0 = Some ms" "book_tbl ?d0 = Some bs"
    "sale_tbl ?d0 = Some ss"
    using create_tables_exist [of d] by auto
  show ?thesis
  proof (cases "executemany insert_member seed_members ?d0")
    case (Inl e)
    with False t0 show ?thesis by (simp add: init_db_def Let_def)
  next
    case (Inr d1)
    note m = executemany_insert_member [OF Inr t0(1)]
    show ?thesis
    proof (cases "executemany insert_book seed_books d1")
      case (Inl e)
      with False Inr t0 show ?thesis by (simp add: init_db_def Let_def)
    next
      case (Inr d2)
      from m t0 have "book_tbl d1 = Some bs" by simp
      note b = executemany_insert_book [OF Inr this]
      show ?thesis
      proof (cases "executemany insert_seed_sale seed_sales d2")
        case (Inl e)
        with False Inr \<open>executemany insert_member seed_members ?d0 = Inr d1\<close> t0
        show ?thesis by (simp add: init_db_def Let_def)
      next
        case (Inr d3)
        from m b t0 have "sale_tbl d2 = Some ss" by simp
        note s = executemany_insert_seed_sale [OF Inr this]
        have "store (init_db d ins) = d3"
          using False Inr \<open>executemany insert_member seed_members ?d0 = Inr d1\<close>
            \<open>executemany insert_book seed_books d1 = Inr d2\<close>
          by (simp add: init_db_def Let_def)
        with s b m show ?thesis by auto
      qed
    qed
  qed
qed

lemma init_db_no_tables:
  "init_db no_tables ins =
     \<lparr>outcome = Inr (), store = seeded, printed = [OutCreatingTables, OutInitDone],
      unread = ins\<rparr>"
  by (simp add: init_db_def table_exists_def no_tables_def create_tables_def seed_eval
      seed_sales_def insert_member_def insert_book_def insert_seed_sale_def insert_sale_def
      bind_ints_def sqlite_int_def next_sid_def Let_def)

text \<open>
  C8: bootstrap is idempotent. A first run on a database without tables creates them and
  leaves exactly the seed rows, once each: 3 members, 3 books and the 4 sales, numbered 1
  to 4. A second run finds the three tables and inserts nothing: it returns the database
  it was given. This holds after every first run, whatever database it started from and
  however it ended.
\<close>

theorem C8_bootstrap_idempotent:
  "init_db no_tables ins =
     \<lparr>outcome = Inr (), store = seeded, printed = [OutCreatingTables, OutInitDone],
      unread = ins\<rparr> \<and>
   init_db seeded ins' =
     \<lparr>outcome = Inr (), store = seeded, printed = [OutTablesExist], unread = ins'\<rparr> \<and>
   init_db (store (init_db d ins)) ins' =
     \<lparr>outcome = Inr (), store = store (init_db d ins), printed = [OutTablesExist],
      unread = ins'\<rparr> \<and>
   member_tbl seeded = Some seed_members \<and> length seed_members = 3 \<and> distinct seed_members \<and>
   book_tbl seeded = Some seed_books \<and> length seed_books = 3 \<and> distinct seed_books \<and>
   sale_tbl seeded = Some seed_sale_rows \<and> length seed_sale_rows = 4 \<and>
   distinct seed_sale_rows \<and>
   map (\<lambda>s. (sdate s, sale_mid s, sale_bid s, sqty s, sdiscount s, stotal s)) seed_sale_rows
     = seed_sales"
proof -
  have a: "init_db seeded ins' =
     \<lparr>outcome = Inr (), store = seeded, printed = [OutTablesExist], unread = ins'\<rparr>"
    by (simp add: init_db_def table_exists_def seeded_def)
  have b: "init_db (store (init_db d ins)) ins' =
     \<lparr>outcome = Inr (), store = store (init_db d ins), printed = [OutTablesExist],
      unread = ins'\<rparr>"
    using init_db_tables_exist [of d ins] by (simp add: init_db_def [of "store (init_db d ins)"] table_exists_def)
  have c: "length seed_members = 3 \<and> distinct seed_members \<and> length seed_books = 3 \<and>
     distinct seed_books \<and> length seed_sale_rows = 4 \<and> distinct seed_sale_rows \<and>
     map (\<lambda>s. (sdate s, sale_mid s, sale_bid s, sqty s, sdiscount s, stotal s)) seed_sale_rows
       = seed_sales"
    by (simp add: seed_eval seed_sales_def)
  from init_db_no_tables a b c seeded_tables show ?thesis by simp
qed

theorem C8_bootstrap_idempotent_witness:
  "init_db (store (init_db no_tables [])) [] =
     \<lparr>outcome = Inr (), store = seeded, printed = [OutTablesExist], unread = []\<rparr>"
  using C8_bootstrap_idempotent [of "[]" "[]" no_tables] by simp

section \<open>The stock never goes negative\<close>

text \<open>A successful pass of \<^verbatim>\<open>sales_record\<close>, and what every pass keeps.\<close>

lemma find_key_unique:
  assumes "distinct (map f xs)" and "find (\<lambda>y. f y = k) xs = Some b"
    and "x \<in> set xs" and "f x = k"
  shows "x = b"
proof -
  from assms(2) have "b \<in> set xs" and "f b = k"
    by (auto simp: find_Some_iff)
  with assms(1,3,4) show ?thesis
    by (auto simp: distinct_map dest: inj_onD)
qed

lemma sale_attempt_break:
  assumes "sale_attempt d ins = (Break, d', ls, ins')"
  shows "case ins of
       date # m # k # qty_line # discount_line # _ \<Rightarrow>
         (case (select_book d k, py_int qty_line, py_int discount_line, sale_tbl d, book_tbl d) of
            (Inr (Some b), Some qty, Some discount, Some ss, Some bs) \<Rightarrow>
              0 < qty \<and> qty \<le> bstock b \<and>
              d' = d\<lparr>sale_tbl := Some (ss @
                       [\<lparr>sid = next_sid ss (sale_seq d), sdate = date, sale_mid = m,
                         sale_bid = k, sqty = qty, sdiscount = discount,
                         stotal = bprice b * qty - discount\<rparr>]),
                     sale_seq := next_sid ss (sale_seq d),
                     book_tbl := Some (map (\<lambda>x. if bid x = k
                                        then x\<lparr>bstock := bstock x - qty\<rparr> else x) bs)\<rparr>
          | _ \<Rightarrow> False)
     | _ \<Rightarrow> False"
  using assms
  by (auto simp: sale_attempt_def insert_sale_def update_book_stock_def Let_def
      split: list.splits sum.splits option.splits if_splits)

lemma stock_update_keeps_bid:
  "map bid (map (\<lambda>x. if bid x = k then x\<lparr>bstock := bstock x - q\<rparr> else x) bs) = map bid bs"
  by (induction bs) auto

lemma sale_attempt_inv:
  assumes "sale_attempt d ins = (fl, d', ls, ins')" and "stock_ok d" and "keys_unique d"
  shows "stock_ok d' \<and> keys_unique d'"
proof (cases "fl = Break")
  case False
  with sale_attempt_no_break_keeps_db [OF assms(1)] assms(2,3) show ?thesis by simp
next
  case True
  with sale_attempt_break [of d ins d' ls ins'] assms(1)
  obtain date m k qty discount b ss bs where
    sb: "select_book d k = Inr (Some b)" and q: "0 < qty" "qty \<le> bstock b"
    and ss: "sale_tbl d = Some ss" and bs: "book_tbl d = Some bs"
    and d': "d' = d\<lparr>sale_tbl := Some (ss @
              [\<lparr>sid = next_sid ss (sale_seq d), sdate = date, sale_mid = m, sale_bid = k,
                sqty = qty, sdiscount = discount, stotal = bprice b * qty - discount\<rparr>]),
            sale_seq := next_sid ss (sale_seq d),
            book_tbl := Some (map (\<lambda>x. if bid x = k
                                        then x\<lparr>bstock := bstock x - qty\<rparr> else x) bs)\<rparr>"
    by (auto split: list.splits sum.splits option.splits)
  from assms(3) ss bs have ds: "distinct (map sid ss)" and db: "distinct (map bid bs)"
    by (simp_all add: keys_unique_def)
  from sb bs have fb: "find (\<lambda>x. bid x = k) bs = Some b" by (simp add: select_book_def)
  from assms(2) bs have pos: "\<forall>x \<in> set bs. 0 \<le> bstock x"
    by (simp add: stock_ok_def list_all_iff)
  have "\<forall>x \<in> set bs. 0 \<le> bstock (if bid x = k then x\<lparr>bstock := bstock x - qty\<rparr> else x)"
  proof
    fix x assume x: "x \<in> set bs"
    show "0 \<le> bstock (if bid x = k then x\<lparr>bstock := bstock x - qty\<rparr> else x)"
    proof (cases "bid x = k")
      case True
      from find_key_unique [OF db fb x True] q True show ?thesis by simp
    next
      case False
      with pos x show ?thesis by simp
    qed
  qed
  then have "list_all (\<lambda>x. 0 \<le> bstock x)
      (map (\<lambda>x. if bid x = k then x\<lparr>bstock := bstock x - qty\<rparr> else x) bs)"
    unfolding list_all_iff by force
  then have st: "stock_ok d'" unfolding d' stock_ok_def by simp
  have d1: "distinct (map sid (ss @
              [\<lparr>sid = next_sid ss (sale_seq d), sdate = date, sale_mid = m, sale_bid = k,
                sqty = qty, sdiscount = discount, stotal = bprice b * qty - discount\<rparr>]))"
    using ds next_sid_fresh [of _ ss "sale_seq d"] by fastforce
  have d2: "distinct (map bid (map (\<lambda>x. if bid x = k
                                        then x\<lparr>bstock := bstock x - qty\<rparr> else x) bs))"
    using db by (simp add: stock_update_keeps_bid del: map_map)
  have "keys_unique d'"
    unfolding d' keys_unique_def using assms(3) d1 d2
    by (simp add: keys_unique_def del: map_map map_append)
  with st show ?thesis by simp
qed

text \<open>The loop of \<^verbatim>\<open>sales_record\<close> keeps what every pass keeps.\<close>

lemma sales_record_loop_inv:
  "stock_ok d \<Longrightarrow> keys_unique d \<Longrightarrow>
   stock_ok (store (sales_record_loop d ins outs)) \<and>
   keys_unique (store (sales_record_loop d ins outs))"
proof (induction "length ins" arbitrary: d ins outs rule: less_induct)
  case less
  obtain fl d' ls ins' where a: "sale_attempt d ins = (fl, d', ls, ins')"
    by (cases "sale_attempt d ins") auto
  from sale_attempt_inv [OF a less.prems] have inv: "stock_ok d'" "keys_unique d'" by simp_all
  show ?case
  proof (cases fl)
    case Continue
    with a have sh: "length ins' < length ins" by (auto dest: sale_attempt_shorter)
    have "sales_record_loop d ins outs = sales_record_loop d' ins' (outs @ ls)"
      using a Continue by (subst sales_record_loop.simps) simp
    with less.hyps [OF sh inv] show ?thesis by simp
  next
    case Break
    with a inv show ?thesis by (subst (1 2) sales_record_loop.simps) simp
  next
    case (Raise e)
    with a inv show ?thesis by (subst (1 2) sales_record_loop.simps) simp
  qed
qed

lemma update_sales_record_frame:
  "member_tbl (store (update_sales_record d ins)) = member_tbl d \<and>
   book_tbl (store (update_sales_record d ins)) = book_tbl d"
proof (cases "sale_tbl d")
  case None
  then show ?thesis by (simp add: update_sales_record_def list_sales_def)
next
  case (Some ss)
  from update_sales_record_cases [OF Some, of ins] show ?thesis by auto
qed

lemma delete_sales_record_frame:
  "member_tbl (store (delete_sales_record d ins)) = member_tbl d \<and>
   book_tbl (store (delete_sales_record d ins)) = book_tbl d"
proof (cases "sale_tbl d")
  case None
  then show ?thesis by (simp add: delete_sales_record_def list_sales_def)
next
  case (Some ss)
  from delete_sales_record_cases [OF Some, of ins] show ?thesis by auto
qed

lemma show_sales_report_store: "store (show_sales_report d ins) = d"
  by (simp add: show_sales_report_def split: sum.splits)

lemma create_tables_inv:
  "stock_ok d \<Longrightarrow> stock_ok (create_tables d)"
  "keys_unique d \<Longrightarrow> keys_unique (create_tables d)"
  by (auto simp: stock_ok_def keys_unique_def create_tables_def split: option.splits)

lemma init_db_inv:
  assumes "stock_ok d" and "keys_unique d"
  shows "stock_ok (store (init_db d ins)) \<and> keys_unique (store (init_db d ins))"
proof (cases "table_exists d ''member'' \<and> table_exists d ''book'' \<and> table_exists d ''sale''")
  case True
  with assms show ?thesis by (simp add: init_db_def)
next
  case False
  let ?d0 = "create_tables d"
  have inv0: "stock_ok ?d0" "keys_unique ?d0" using assms by (simp_all add: create_tables_inv)
  obtain ms bs ss where t0: "member_tbl ?d0 = Some ms" "book_tbl ?d0 = Some bs"
    "sale_tbl ?d0 = Some ss"
    using create_tables_exist [of d] by auto
  from inv0 t0 have dist: "distinct (map mid ms)" "distinct (map bid bs)" "distinct (map sid ss)"
    and pos: "list_all (\<lambda>b. 0 \<le> bstock b) bs"
    by (simp_all add: keys_unique_def stock_ok_def)
  show ?thesis
  proof (cases "executemany insert_member seed_members ?d0")
    case (Inl e)
    with False inv0 show ?thesis by (simp add: init_db_def Let_def)
  next
    case (Inr d1)
    note e1 = this
    note m = executemany_insert_member [OF Inr t0(1)]
    show ?thesis
    proof (cases "executemany insert_book seed_books d1")
      case (Inl e)
      with False e1 inv0 show ?thesis by (simp add: init_db_def Let_def)
    next
      case (Inr d2)
      note e2 = this
      from m t0 have "book_tbl d1 = Some bs" by simp
      note b = executemany_insert_book [OF Inr this]
      show ?thesis
      proof (cases "executemany insert_seed_sale seed_sales d2")
        case (Inl e)
        with False e1 e2 inv0 show ?thesis by (simp add: init_db_def Let_def)
      next
        case (Inr d3)
        from m b t0 have "sale_tbl d2 = Some ss" by simp
        note s = executemany_insert_seed_sale [OF Inr this]
        have st: "store (init_db d ins) = d3"
          using False Inr e1 e2 by (simp add: init_db_def Let_def)
        have "book_tbl d3 = Some (bs @ seed_books)" using s b by simp
        moreover have "list_all (\<lambda>b. 0 \<le> bstock b) seed_books" by (simp add: seed_books_def)
        ultimately have "stock_ok d3" using pos by (simp add: stock_ok_def)
        moreover have "keys_unique d3"
          using s b m dist by (auto simp: keys_unique_def)
        ultimately show ?thesis using st by simp
      qed
    qed
  qed
qed

text \<open>
  C7: every operation keeps every book's stock non-negative. From a database in which all
  stocks are at least 0 (and the primary keys are unique, as in every SQLite table with
  this schema), CreateSale, UpdateSale, DeleteSale, the report and the bootstrap each
  leave a database in which all stocks are at least 0, on every input and however the
  operation ends.
\<close>

theorem C7_stock_nonnegative:
  assumes "stock_ok d" and "keys_unique d"
  shows "stock_ok (store (sales_record d ins)) \<and>
         stock_ok (store (update_sales_record d ins)) \<and>
         stock_ok (store (delete_sales_record d ins)) \<and>
         stock_ok (store (show_sales_report d ins)) \<and>
         stock_ok (store (init_db d ins))"
proof -
  have "stock_ok (store (sales_record d ins))"
    using sales_record_loop_inv [OF assms] by (simp add: sales_record_def)
  moreover have "stock_ok (store (update_sales_record d ins))"
    using update_sales_record_frame [of d ins] assms(1) by (simp add: stock_ok_def)
  moreover have "stock_ok (store (delete_sales_record d ins))"
    using delete_sales_record_frame [of d ins] assms(1) by (simp add: stock_ok_def)
  moreover have "stock_ok (store (show_sales_report d ins))"
    using assms(1) by (simp add: show_sales_report_store)
  moreover have "stock_ok (store (init_db d ins))"
    using init_db_inv [OF assms] by simp
  ultimately show ?thesis by simp
qed

theorem C7_stock_nonnegative_witness:
  "stock_ok seeded \<and> keys_unique seeded \<and>
   stock_ok (store (sales_record seeded [''2024-02-01'', ''M001'', ''B002'', ''30'', ''0''])) \<and>
   stock_ok (store (update_sales_record seeded [''2'', ''10''])) \<and>
   stock_ok (store (delete_sales_record seeded [''2''])) \<and>
   stock_ok (store (show_sales_report seeded [])) \<and>
   stock_ok (store (init_db seeded []))"
proof -
  have s: "stock_ok seeded" by (simp add: stock_ok_def seed_eval)
  from C7_stock_nonnegative [OF s keys_unique_seeded,
      of "[''2024-02-01'', ''M001'', ''B002'', ''30'', ''0'']"]
    C7_stock_nonnegative [OF s keys_unique_seeded, of "[''2'', ''10'']"]
    C7_stock_nonnegative [OF s keys_unique_seeded, of "[''2'']"]
    C7_stock_nonnegative [OF s keys_unique_seeded, of "[]"]
    s keys_unique_seeded
  show ?thesis by simp
qed

text \<open>
  Unique primary keys are themselves kept by every operation, so the two properties hold
  along any sequence of operations.
\<close>

lemma update_keeps_sid:
  "map sid (map (\<lambda>s. if sid s = k then s\<lparr>sdiscount := nd, stotal := t\<rparr> else s) ss)
     = map sid ss"
  by (induction ss) auto

lemma keys_unique_preserved:
  assumes "keys_unique d" and "stock_ok d"
  shows "keys_unique (store (update_sales_record d ins)) \<and>
         keys_unique (store (delete_sales_record d ins)) \<and>
         keys_unique (store (show_sales_report d ins)) \<and>
         keys_unique (store (sales_record d ins)) \<and>
         keys_unique (store (init_db d ins))"
proof -
  have u: "keys_unique (store (update_sales_record d ins))"
  proof (cases "sale_tbl d")
    case None
    with assms show ?thesis by (simp add: update_sales_record_def list_sales_def)
  next
    case (Some ss)
    from update_sales_record_cases [OF Some, of ins]
    consider "store (update_sales_record d ins) = d"
      | k nd t where "store (update_sales_record d ins) =
          d\<lparr>sale_tbl := Some (map (\<lambda>s. if sid s = k
                     then s\<lparr>sdiscount := nd, stotal := t\<rparr> else s) ss)\<rparr>"
      by blast
    then show ?thesis
    proof cases
      case 1
      with assms show ?thesis by simp
    next
      case 2
      with assms Some show ?thesis
        by (simp add: keys_unique_def update_keeps_sid del: map_map)
    qed
  qed
  have dl: "keys_unique (store (delete_sales_record d ins))"
  proof (cases "sale_tbl d")
    case None
    with assms show ?thesis by (simp add: delete_sales_record_def list_sales_def)
  next
    case (Some ss)
    with delete_sales_record_cases [OF Some, of ins] assms show ?thesis
      by (auto simp: keys_unique_def distinct_map_filter)
  qed
  have sr: "keys_unique (store (sales_record d ins))"
    using sales_record_loop_inv [OF assms(2,1)] by (simp add: sales_record_def)
  have ib: "keys_unique (store (init_db d ins))"
    using init_db_inv [OF assms(2,1)] by simp
  from u dl sr ib assms(1) show ?thesis by (simp add: show_sales_report_store)
qed

end
